theory Spec2Isabelle
  imports Complex_Main "HOL-Library.Multiset"
begin

section \<open>JavaScript numbers and their decimal rendering\<close>

text \<open>
  The two formatting helpers of the chat screen work on JavaScript numbers, which are
  doubles. A number is modelled by its exact value: an integer as \<open>int\<close>, a number with
  a fractional part as \<open>rat\<close>. An absent argument (\<open>undefined\<close>) is \<open>None\<close>.

  Exact arithmetic is JavaScript's only in a range. On integers of magnitude below
  \<open>2^53\<close> division by \<open>1024\<close> and by \<open>1048576\<close> loses nothing and a template literal
  prints every digit; for a number from \<open>0\<close> up to \<open>2^53\<close> the remainder \<open>%\<close> is exact
  and the rounding of \<open>seconds / 60\<close> never reaches the next integer, so that
  \<open>Math.floor\<close> of it is the floor of the exact quotient; \<open>toFixed\<close> prints digits
  below \<open>10^21\<close> and exponent notation from there on. Outside its range a helper's
  model gives \<open>Unmodelled\<close>: it does not say what the code returns there.
\<close>

datatype js_result = Returns string | Unmodelled

definition suffixed :: "js_result \<Rightarrow> string \<Rightarrow> js_result" where
  "suffixed r s = (case r of Returns t \<Rightarrow> Returns (t @ s) | Unmodelled \<Rightarrow> Unmodelled)"

text \<open>The decimal numeral of an integer: its digits, after a minus sign when negative.\<close>

definition digit :: "nat \<Rightarrow> char" where
  "digit d = ''0123456789'' ! d"

fun digits :: "nat \<Rightarrow> string" where
  "digits n = (if n < 10 then [digit n] else digits (n div 10) @ [digit (n mod 10)])"

declare digits.simps [simp del]

definition decimal :: "int \<Rightarrow> string" where
  "decimal i = (if i < 0 then ''-'' @ digits (nat (- i)) else digits (nat i))"

text \<open>
  \<open>x.toFixed(1)\<close> for \<open>x\<close> of magnitude below \<open>10^21\<close>: the integer \<open>n\<close> for which
  \<open>n / 10\<close> is closest to the magnitude of \<open>x\<close>, the larger one on a tie, printed with
  the decimal point before its last digit, after a minus sign when \<open>x\<close> is negative.
  From \<open>10^21\<close> on JavaScript prints exponent notation, which is not modelled.
\<close>

definition toFixed1 :: "rat \<Rightarrow> js_result" where
  "toFixed1 x =
     (if 10 ^ 21 \<le> \<bar>x\<bar> then Unmodelled
      else
        let n = \<lfloor>\<bar>x\<bar> * 10 + 1 / 2\<rfloor>;
            m = decimal (n div 10) @ ''.'' @ decimal (n mod 10)
        in Returns (if x < 0 then ''-'' @ m else m))"

text \<open>
  Reading a decimal string back, to say what a rendering denotes: the value of a digit
  string, and of a string with one digit after the point.
\<close>

definition digit_val :: "char \<Rightarrow> nat" where
  "digit_val c = of_char c - 48"

definition is_digit :: "char \<Rightarrow> bool" where
  "is_digit c = (48 \<le> (of_char c :: nat) \<and> (of_char c :: nat) \<le> 57)"

definition digits_val :: "string \<Rightarrow> nat" where
  "digits_val s = foldl (\<lambda>a c. 10 * a + digit_val c) 0 s"

section \<open>The chat screen's formatting helpers\<close>

text \<open>
  \<^verbatim>\<open>
  const formatFileSize = (bytes?: number) => {
    if (!bytes) return 'Unknown size';
    if (bytes < 1024) return `${bytes} B`;
    if (bytes < 1048576) return `${(bytes / 1024).toFixed(1)} KB`;
    return `${(bytes / 1048576).toFixed(1)} MB`;
  };
  \<close>
  \<open>!bytes\<close> holds for \<open>undefined\<close> and for \<open>0\<close>. The model covers the byte counts that
  are integers of magnitude below \<open>2^53\<close>.
\<close>

definition formatFileSize :: "int option \<Rightarrow> js_result" where
  "formatFileSize bytes =
     (case bytes of
        None \<Rightarrow> Returns ''Unknown size''
      | Some b \<Rightarrow>
          if b = 0 then Returns ''Unknown size''
          else if 2 ^ 53 \<le> \<bar>b\<bar> then Unmodelled
          else if b < 1024 then Returns (decimal b @ '' B'')
          else if b < 1048576 then suffixed (toFixed1 (of_int b / 1024)) '' KB''
          else suffixed (toFixed1 (of_int b / 1048576)) '' MB'')"

text \<open>
  \<^verbatim>\<open>
  const formatDuration = (seconds?: number) => {
    if (!seconds) return '0:00';
    const mins = Math.floor(seconds / 60);
    const secs = Math.floor(seconds % 60);
    return `${mins}:${secs < 10 ? '0' : ''}${secs}`;
  };
  \<close>
  JavaScript's \<open>%\<close> takes the sign of the dividend: \<open>x % 60\<close> is \<open>x\<close> minus \<open>60\<close> times
  the quotient truncated towards zero. The model covers the durations from \<open>0\<close> up to
  \<open>2^53\<close> seconds.
\<close>

definition js_trunc :: "rat \<Rightarrow> int" where
  "js_trunc x = (if x < 0 then \<lceil>x\<rceil> else \<lfloor>x\<rfloor>)"

definition js_rem :: "rat \<Rightarrow> rat \<Rightarrow> rat" where
  "js_rem x y = x - y * of_int (js_trunc (x / y))"

definition formatDuration :: "rat option \<Rightarrow> js_result" where
  "formatDuration seconds =
     (case seconds of
        None \<Rightarrow> Returns ''0:00''
      | Some s \<Rightarrow>
          if s = 0 then Returns ''0:00''
          else if s < 0 \<or> 2 ^ 53 \<le> s then Unmodelled
          else
            let mins = \<lfloor>s / 60\<rfloor>;
                secs = \<lfloor>js_rem s 60\<rfloor>
            in Returns (decimal mins @ '':'' @ (if secs < 10 then ''0'' else '''') @ decimal secs))"

text \<open>
  What a rendering denotes, for stating the helpers' results: the number a digit string
  reads as, the number a string with one digit after the point reads as, and what it
  means for a string to render a number to one decimal place (the nearest tenth).
\<close>

definition decimal_val :: "string \<Rightarrow> nat option" where
  "decimal_val s = (if s \<noteq> [] \<and> list_all is_digit s then Some (digits_val s) else None)"

definition decimal1_val :: "string \<Rightarrow> rat option" where
  "decimal1_val s =
     (let ip = takeWhile is_digit s; rest = dropWhile is_digit s
      in case rest of
           [p, f] \<Rightarrow>
             if p = CHR ''.'' \<and> is_digit f \<and> ip \<noteq> []
             then Some (of_nat (digits_val ip) + of_nat (digit_val f) / 10)
             else None
         | _ \<Rightarrow> None)"

definition rendered_one_decimal :: "rat \<Rightarrow> string \<Rightarrow> bool" where
  "rendered_one_decimal x s =
     (case decimal1_val s of Some v \<Rightarrow> \<bar>x - v\<bar> \<le> 1 / 20 | None \<Rightarrow> False)"

text \<open>
  The parts of a duration as the specification names them: the whole minutes, the
  remaining whole seconds, and a number below 100 written with two digits.
\<close>

definition whole_minutes :: "rat \<Rightarrow> nat" where
  "whole_minutes s = nat \<lfloor>s\<rfloor> div 60"

definition remaining_seconds :: "rat \<Rightarrow> nat" where
  "remaining_seconds s = nat \<lfloor>s\<rfloor> mod 60"

definition pad2 :: "nat \<Rightarrow> string" where
  "pad2 n = [digit (n div 10), digit (n mod 10)]"

section \<open>Effects shared by the screens\<close>

text \<open>
  Every screen reads and writes the document store through the backend's client and
  talks to the user through alerts and navigation. A handler is modelled as a function
  from the component's state to the new state and the list of effects it issued, in
  order. \<open>UpdateDoc c i f\<close> is \<open>updateDoc(doc(db, c, i), f)\<close> with the one field the
  handler writes. Whether a write succeeds is decided by the backend: a handler that
  awaits one takes the outcome as an argument.
\<close>

datatype field_update =
    ReadBy "string list"
  | Notifications bool
  | BlockedUsers "string list"

datatype effect =
    Alert string string
  | ConsoleError string
  | RouterBack
  | ScrollToEnd
  | UpdateDoc string string field_update

fun is_write :: "effect \<Rightarrow> bool" where
  "is_write (UpdateDoc c i f) = True"
| "is_write e = False"

section \<open>The employee chat screen\<close>

subsection \<open>Documents and messages\<close>

text \<open>
  A Firestore \<open>Timestamp\<close> holds seconds and nanoseconds, and timestamps are ordered
  by their nanoseconds since the epoch. \<open>toDate()\<close> gives the \<open>Date\<close> of a timestamp;
  the SDK computes its milliseconds in floating point, which the model does not go
  into: the \<open>Date\<close> of the timestamp \<open>t\<close> is kept as \<open>DateOf t\<close>.
\<close>

record fs_timestamp =
  seconds :: int
  nanoseconds :: int

definition ts_nanos :: "fs_timestamp \<Rightarrow> int" where
  "ts_nanos t = seconds t * 1000000000 + nanoseconds t"

datatype chat_date = DateOf fs_timestamp

text \<open>
  The data of a document of the \<open>messages\<close> collection, as the snapshot callback reads
  it: every field may be missing (or hold nothing usable), which is \<open>None\<close>; so is
  the timestamp of a message the server has not stamped yet.
  \<^verbatim>\<open>
  interface Message {
    id: string; senderId: string; senderName: string; senderEmail: string;
    senderCity: string; city: string; content: string; type: MessageType;
    timestamp: Date | null; readBy: string[]; metadata?: {...};
  }
  \<close>
  The \<open>metadata\<close> of a message is copied along and plays no part in what follows; it is
  left out.
\<close>

record message_doc =
  doc_id :: string
  d_senderId :: "string option"
  d_senderName :: "string option"
  d_senderEmail :: "string option"
  d_senderCity :: "string option"
  d_city :: "string option"
  d_content :: "string option"
  d_type :: "string option"
  d_timestamp :: "fs_timestamp option"
  d_readBy :: "string list option"

record message =
  msg_id :: string
  senderId :: string
  senderName :: string
  senderEmail :: string
  senderCity :: string
  city :: string
  content :: string
  msg_type :: string
  timestamp :: "chat_date option"
  readBy :: "string list"

text \<open>\<open>data.f || d\<close>: the field when it is there and not empty, the default otherwise.\<close>

definition or_default :: "string option \<Rightarrow> string \<Rightarrow> string" where
  "or_default f d = (case f of None \<Rightarrow> d | Some s \<Rightarrow> if s = [] then d else s)"

text \<open>
  The body of \<open>snapshot.forEach\<close>:
  \<^verbatim>\<open>
  let timestamp: Date | null = null;
  if (data.timestamp && typeof data.timestamp.toDate === 'function') {
    timestamp = data.timestamp.toDate();
  }
  messagesData.push({
    id: docSnap.id,
    senderId: data.senderId || '', ..., city: data.city || '',
    content: data.content || '', type: data.type || 'text',
    timestamp,
    readBy: Array.isArray(data.readBy) ? data.readBy : [],
    metadata: data.metadata || {},
  });
  \<close>
\<close>

definition toMessage :: "message_doc \<Rightarrow> message" where
  "toMessage d =
     \<lparr> msg_id = doc_id d,
       senderId = or_default (d_senderId d) [],
       senderName = or_default (d_senderName d) [],
       senderEmail = or_default (d_senderEmail d) [],
       senderCity = or_default (d_senderCity d) [],
       city = or_default (d_city d) [],
       content = or_default (d_content d) [],
       msg_type = or_default (d_type d) ''text'',
       timestamp = map_option DateOf (d_timestamp d),
       readBy = (case d_readBy d of None \<Rightarrow> [] | Some r \<Rightarrow> r) \<rparr>"

subsection \<open>The signed-in user and the role gate\<close>

text \<open>
  The profile document of \<open>users/<uid>\<close>. The screen keeps
  \<open>{ uid: user.uid, ...userData }\<close>: a \<open>uid\<close> field stored in the profile would replace
  the authentication uid.
\<close>

record user_doc =
  u_role :: "string option"
  u_uid :: "string option"
  u_name :: "string option"
  u_email :: "string option"
  u_city :: "string option"

record chat_user =
  uid :: string
  profile :: user_doc

record chat_state =
  messages :: "message list"
  isLoading :: bool
  user :: "chat_user option"

definition initial_chat_state :: chat_state where
  "initial_chat_state = \<lparr> messages = [], isLoading = True, user = None \<rparr>"

text \<open>
  \<^verbatim>\<open>
  authInstance.onAuthStateChanged((user: any) => {
    if (user) {
      const userRef = doc(db, 'users', user.uid);
      getDoc(userRef).then((docSnap) => {
        if (docSnap.exists()) {
          const userData = docSnap.data();
          if (userData.role !== 'employee') {
            Alert.alert('Access Denied', 'Only employees can access this chat');
            router.back();
          } else {
            setUser({ uid: user.uid, ...userData });
          }
        } else {
          router.back();
        }
      });
    } else {
      router.back();
    }
  });
  \<close>
  The arguments are the authenticated user's uid (\<open>None\<close> when signed out) and what
  \<open>getDoc\<close> resolved to (\<open>None\<close> when the document does not exist). A \<open>getDoc\<close>
  that is rejected runs none of the callback and is not an event of the model.
\<close>

definition onAuthStateChanged :: "string option \<Rightarrow> user_doc option \<Rightarrow> chat_state \<Rightarrow> chat_state \<times> effect list" where
  "onAuthStateChanged authUser docSnap st =
     (case authUser of
        None \<Rightarrow> (st, [RouterBack])
      | Some auth_uid \<Rightarrow>
          (case docSnap of
             None \<Rightarrow> (st, [RouterBack])
           | Some userData \<Rightarrow>
               if u_role userData \<noteq> Some ''employee''
               then (st, [Alert ''Access Denied'' ''Only employees can access this chat'', RouterBack])
               else (st\<lparr>user := Some \<lparr> uid = (case u_uid userData of None \<Rightarrow> auth_uid | Some i \<Rightarrow> i),
                                        profile = userData \<rparr>\<rparr>, [])))"

subsection \<open>The message subscription\<close>

text \<open>
  The query the screen listens to, as it builds it:
  \<^verbatim>\<open>
  const q = query(messagesRef, where('city', '==', city), orderBy('timestamp', 'asc'));
  \<close>
\<close>

datatype query_constraint =
    Where string string string
  | OrderBy string string

record query =
  q_collection :: string
  q_constraints :: "query_constraint list"

definition messagesQuery :: "string \<Rightarrow> query" where
  "messagesQuery c =
     \<lparr> q_collection = ''messages'',
       q_constraints = [Where ''city'' ''=='' c, OrderBy ''timestamp'' ''asc''] \<rparr>"

text \<open>
  The effect that subscribes: \<open>if (!city || !user) return;\<close>, then
  \<open>setIsLoading(true)\<close> and \<open>onSnapshot(q, ...)\<close>. The result holds the query listened
  to, or \<open>None\<close> when the effect returned early. The \<open>city\<close> route parameter is \<open>None\<close>
  when absent.
\<close>

definition messagesEffect :: "string option \<Rightarrow> chat_state \<Rightarrow> chat_state \<times> query option" where
  "messagesEffect cityParam st =
     (case cityParam of
        None \<Rightarrow> (st, None)
      | Some c \<Rightarrow>
          if c = [] \<or> user st = None then (st, None)
          else (st\<lparr>isLoading := True\<rparr>, Some (messagesQuery c)))"

text \<open>
  \<^verbatim>\<open>
  const markMessagesAsRead = useCallback((msgs: Message[] = messages) => {
    if (!user) return;
    const unreadMessages = msgs.filter(
      (msg) => msg.senderId !== user.uid && !msg.readBy.includes(user.uid)
    );
    if (unreadMessages.length > 0) {
      const batch = [];
      for (const message of unreadMessages) {
        const messageRef = doc(db, 'messages', message.id);
        batch.push(updateDoc(messageRef, { readBy: [...message.readBy, user.uid] }));
      }
      Promise.all(batch).catch(console.error);
    }
  }, [messages, user]);
  \<close>
\<close>

definition unread :: "chat_user \<Rightarrow> message \<Rightarrow> bool" where
  "unread u msg = (senderId msg \<noteq> uid u \<and> uid u \<notin> set (readBy msg))"

definition markMessagesAsRead :: "chat_user option \<Rightarrow> message list \<Rightarrow> effect list" where
  "markMessagesAsRead usr msgs =
     (case usr of
        None \<Rightarrow> []
      | Some u \<Rightarrow>
          let unreadMessages = filter (unread u) msgs
          in if length unreadMessages > 0
             then map (\<lambda>m. UpdateDoc ''messages'' (msg_id m) (ReadBy (readBy m @ [uid u]))) unreadMessages
             else [])"

text \<open>
  The snapshot callback: the documents of the snapshot are mapped, in order, to the new
  message list, which replaces the old one; then the list is marked as read and the
  view scrolls to its end.
\<close>

definition onSnapshot :: "message_doc list \<Rightarrow> chat_state \<Rightarrow> chat_state \<times> effect list" where
  "onSnapshot snapshot st =
     (let messagesData = map toMessage snapshot
      in (st\<lparr>messages := messagesData, isLoading := False\<rparr>,
          markMessagesAsRead (user st) messagesData @ [ScrollToEnd]))"

subsection \<open>What the backend is asked for\<close>

text \<open>
  Modelled from the spec: the document store's answer to a query, which is the
  backend's and not in the repository. The spec has the screen "listen for collection
  changes ordered by timestamp" on "a message feed filtered to a shared locality
  field". A snapshot answers a query over a collection when it holds the documents of
  the collection that every \<open>where\<close> admits, in an order every \<open>orderBy\<close> agrees with:
  \<open>where(f, '==', v)\<close> admits the documents whose field \<open>f\<close> is \<open>v\<close>;
  \<open>orderBy(f, 'asc')\<close> asks for ascending order of the field \<open>f\<close>, and places no
  document that has no value for it (a message not stamped yet). It is used as a
  hypothesis only.
\<close>

datatype fs_value = VString string | VTimestamp fs_timestamp | VArray "string list"

definition getField :: "message_doc \<Rightarrow> string \<Rightarrow> fs_value option" where
  "getField d f =
     (if f = ''senderId'' then map_option VString (d_senderId d)
      else if f = ''senderName'' then map_option VString (d_senderName d)
      else if f = ''senderEmail'' then map_option VString (d_senderEmail d)
      else if f = ''senderCity'' then map_option VString (d_senderCity d)
      else if f = ''city'' then map_option VString (d_city d)
      else if f = ''content'' then map_option VString (d_content d)
      else if f = ''type'' then map_option VString (d_type d)
      else if f = ''timestamp'' then map_option VTimestamp (d_timestamp d)
      else if f = ''readBy'' then map_option VArray (d_readBy d)
      else None)"

fun admits :: "query_constraint \<Rightarrow> message_doc \<Rightarrow> bool" where
  "admits (Where f opr v) d = (opr = ''=='' \<and> getField d f = Some (VString v))"
| "admits (OrderBy f dir) d = True"

fun value_le :: "fs_value option \<Rightarrow> fs_value option \<Rightarrow> bool" where
  "value_le (Some (VTimestamp a)) (Some (VTimestamp b)) = (ts_nanos a \<le> ts_nanos b)"
| "value_le a b = True"

fun in_order :: "query_constraint \<Rightarrow> message_doc list \<Rightarrow> bool" where
  "in_order (Where f opr v) ds = True"
| "in_order (OrderBy f dir) ds =
     (if dir = ''asc'' then sorted_wrt (\<lambda>a b. value_le (getField a f) (getField b f)) ds
      else if dir = ''desc'' then sorted_wrt (\<lambda>a b. value_le (getField b f) (getField a f)) ds
      else False)"

definition answers :: "query \<Rightarrow> message_doc list \<Rightarrow> message_doc list \<Rightarrow> bool" where
  "answers q coll snapshot =
     (mset snapshot = mset (filter (\<lambda>d. list_all (\<lambda>c. admits c d) (q_constraints q)) coll)
      \<and> list_all (\<lambda>c. in_order c snapshot) (q_constraints q))"

subsection \<open>The store after the writes\<close>

text \<open>
  Modelled from the spec: the document store's \<open>updateDoc\<close>, which is the backend's
  and not in the repository ("patch a read-by list"). On \<open>messages/i\<close> it replaces
  the \<open>readBy\<close> field of the document with id \<open>i\<close> and leaves every other document
  alone. \<open>markRead\<close> is one round: the collection is delivered as a snapshot, marked
  as read, and the writes land.
\<close>

fun applyEffect :: "effect \<Rightarrow> message_doc list \<Rightarrow> message_doc list" where
  "applyEffect (UpdateDoc c i (ReadBy r)) ds =
     (if c = ''messages'' then map (\<lambda>d. if doc_id d = i then d\<lparr>d_readBy := Some r\<rparr> else d) ds else ds)"
| "applyEffect e ds = ds"

definition applyEffects :: "effect list \<Rightarrow> message_doc list \<Rightarrow> message_doc list" where
  "applyEffects es ds = fold applyEffect es ds"

definition markRead :: "chat_user \<Rightarrow> message_doc list \<Rightarrow> message_doc list" where
  "markRead u ds = applyEffects (markMessagesAsRead (Some u) (map toMessage ds)) ds"

text \<open>
  What one round does to a single document: the current user's uid is appended to the
  \<open>readBy\<close> list of a document that is unread, and nothing else changes.
\<close>

definition patch :: "chat_user \<Rightarrow> message_doc \<Rightarrow> message_doc" where
  "patch u d = (if unread u (toMessage d) then d\<lparr>d_readBy := Some (readBy (toMessage d) @ [uid u])\<rparr> else d)"

subsection \<open>A small collection to run the screen on\<close>

text \<open>
  An employee \<open>u1\<close> in Pune, a signed-in user who is not an employee, and five
  messages, four of them for Pune: one unread by \<open>u1\<close>, one sent by \<open>u1\<close>, one already
  read, and one just sent by \<open>u1\<close> that the server has not stamped yet.
\<close>

definition example_user :: chat_user where
  "example_user = \<lparr> uid = ''u1'', profile = \<lparr> u_role = Some ''employee'', u_uid = None,
     u_name = Some ''Asha'', u_email = None, u_city = Some ''Pune'' \<rparr> \<rparr>"

definition example_doc :: "string \<Rightarrow> string \<Rightarrow> int \<Rightarrow> string list \<Rightarrow> message_doc" where
  "example_doc i sender secs rb =
     \<lparr> doc_id = i, d_senderId = Some sender, d_senderName = None, d_senderEmail = None,
       d_senderCity = None, d_city = Some ''Pune'', d_content = Some ''hello'', d_type = None,
       d_timestamp = Some \<lparr> seconds = secs, nanoseconds = 0 \<rparr>, d_readBy = Some rb \<rparr>"

definition example_snapshot :: "message_doc list" where
  "example_snapshot =
     [example_doc ''m1'' ''u2'' 100 [''u2''],
      example_doc ''m2'' ''u1'' 200 [''u1''],
      example_doc ''m3'' ''u2'' 300 [''u2'', ''u1'']]"

definition example_state :: chat_state where
  "example_state = initial_chat_state\<lparr>user := Some example_user\<rparr>"

definition example_customer :: user_doc where
  "example_customer = \<lparr> u_role = Some ''user'', u_uid = None, u_name = Some ''Ravi'',
     u_email = None, u_city = Some ''Pune'' \<rparr>"

definition example_pending :: message_doc where
  "example_pending = (example_doc ''m4'' ''u1'' 0 [''u1''])\<lparr>d_timestamp := None\<rparr>"

definition example_collection :: "message_doc list" where
  "example_collection =
     [example_doc ''m3'' ''u2'' 300 [''u2'', ''u1''],
      (example_doc ''m9'' ''u5'' 150 [''u5''])\<lparr>d_city := Some ''Nagpur''\<rparr>,
      example_pending,
      example_doc ''m1'' ''u2'' 100 [''u2''],
      example_doc ''m2'' ''u1'' 200 [''u1'']]"

section \<open>The employee dashboard\<close>

text \<open>
  The dashboard reads only the calendar fields of a \<open>Date\<close> in local time, so a
  \<open>Date\<close> is modelled here by them: full year, month index and day of the month. An
  invalid \<open>Date\<close> has \<open>NaN\<close> for every field, which is \<open>None\<close>; \<open>===\<close> on numbers
  never holds for \<open>NaN\<close>.
\<close>

datatype js_date = InvalidDate | LocalDate int int int

fun getFullYear :: "js_date \<Rightarrow> int option" where
  "getFullYear InvalidDate = None"
| "getFullYear (LocalDate y m d) = Some y"

fun getMonth :: "js_date \<Rightarrow> int option" where
  "getMonth InvalidDate = None"
| "getMonth (LocalDate y m d) = Some m"

fun getDate :: "js_date \<Rightarrow> int option" where
  "getDate InvalidDate = None"
| "getDate (LocalDate y m d) = Some d"

fun strict_eq :: "int option \<Rightarrow> int option \<Rightarrow> bool" where
  "strict_eq (Some a) (Some b) = (a = b)"
| "strict_eq a b = False"

text \<open>
  \<^verbatim>\<open>
  function isToday(date: Date) {
    const now = new Date();
    return (
      date.getFullYear() === now.getFullYear() &&
      date.getMonth() === now.getMonth() &&
      date.getDate() === now.getDate()
    );
  }
  \<close>
  The clock is read inside the function; in the model \<open>now\<close> is its first argument,
  and the reads of one pass over the requests give the same date.
\<close>

definition isToday :: "js_date \<Rightarrow> js_date \<Rightarrow> bool" where
  "isToday now date =
     (strict_eq (getFullYear date) (getFullYear now)
      \<and> strict_eq (getMonth date) (getMonth now)
      \<and> strict_eq (getDate date) (getDate now))"

text \<open>
  The \<open>createdAt\<close> field of an SOS request is declared as a Firestore timestamp,
  \<open>createdAt?: { toDate: () => Date; toMillis: () => number }\<close>. The filter also
  accepts any other truthy value \<open>v\<close>, through \<open>new Date(v)\<close>. \<open>FsTimestamp d\<close> is a
  timestamp whose \<open>toDate()\<close> is \<open>d\<close>; \<open>OtherValue d\<close> is a truthy value without
  \<open>toDate\<close> for which \<open>new Date(v)\<close> is \<open>d\<close>. A field that is absent, \<open>null\<close> or
  otherwise falsy is \<open>None\<close>: the guard \<open>alert.createdAt &&\<close> rejects them alike.
\<close>

datatype created_at = FsTimestamp js_date | OtherValue js_date

record sos_request =
  sos_id :: string
  createdAt :: "created_at option"
  emergencyType :: "string option"
  urgency :: "string option"
  status :: "string option"

fun createdDate :: "created_at \<Rightarrow> js_date" where
  "createdDate (FsTimestamp d) = d"
| "createdDate (OtherValue d) = d"

text \<open>
  \<^verbatim>\<open>
  const todaysAlerts = sosRequests.filter(
    (alert) =>
      alert.createdAt &&
      isToday(alert.createdAt.toDate && typeof alert.createdAt.toDate === "function"
        ? alert.createdAt.toDate()
        : new Date(alert.createdAt as any))
  );
  \<close>
\<close>

definition todaysAlerts :: "js_date \<Rightarrow> sos_request list \<Rightarrow> sos_request list" where
  "todaysAlerts now sosRequests =
     filter (\<lambda>alert. case createdAt alert of
                        None \<Rightarrow> False
                      | Some v \<Rightarrow> isToday now (createdDate v)) sosRequests"

text \<open>The same calendar day, as the specification words it.\<close>

definition same_calendar_day :: "js_date \<Rightarrow> js_date \<Rightarrow> bool" where
  "same_calendar_day a b = (\<exists>y m d. a = LocalDate y m d \<and> b = LocalDate y m d)"

definition example_request :: "string \<Rightarrow> created_at option \<Rightarrow> sos_request" where
  "example_request i c =
     \<lparr> sos_id = i, createdAt = c, emergencyType = Some ''Fire'', urgency = Some ''High'',
       status = Some ''pending'' \<rparr>"

definition example_requests :: "sos_request list" where
  "example_requests =
     [example_request ''s1'' (Some (FsTimestamp (LocalDate 2025 6 14))),
      example_request ''s2'' None,
      example_request ''s3'' (Some (FsTimestamp (LocalDate 2025 6 13))),
      example_request ''s4'' (Some (OtherValue (LocalDate 2025 6 14))),
      example_request ''s5'' (Some (OtherValue InvalidDate))]"

section \<open>The profile screen\<close>

subsection \<open>The e-mail pattern\<close>

text \<open>
  \<open>/^[^\s@]+@[^\s@]+\.[^\s@]+$/\<close>, tested against the whole input. The pattern is kept
  as a regular expression and matched by derivatives. Characters are the code units
  below 256; of these \<open>\s\<close> matches tab, line feed, vertical tab, form feed, carriage
  return, space and the no-break space.
\<close>

datatype regex =
    RNone
  | REps
  | RChar char
  | RNotIn "char list"
  | RSeq regex regex
  | RAlt regex regex
  | RStar regex

fun nullable :: "regex \<Rightarrow> bool" where
  "nullable RNone = False"
| "nullable REps = True"
| "nullable (RChar c) = False"
| "nullable (RNotIn cs) = False"
| "nullable (RSeq r s) = (nullable r \<and> nullable s)"
| "nullable (RAlt r s) = (nullable r \<or> nullable s)"
| "nullable (RStar r) = True"

fun deriv :: "char \<Rightarrow> regex \<Rightarrow> regex" where
  "deriv c RNone = RNone"
| "deriv c REps = RNone"
| "deriv c (RChar a) = (if c = a then REps else RNone)"
| "deriv c (RNotIn cs) = (if c \<in> set cs then RNone else REps)"
| "deriv c (RSeq r s) =
     (if nullable r then RAlt (RSeq (deriv c r) s) (deriv c s) else RSeq (deriv c r) s)"
| "deriv c (RAlt r s) = RAlt (deriv c r) (deriv c s)"
| "deriv c (RStar r) = RSeq (deriv c r) (RStar r)"

definition regex_test :: "regex \<Rightarrow> string \<Rightarrow> bool" where
  "regex_test r s = nullable (fold deriv s r)"

definition RPlus :: "regex \<Rightarrow> regex" where
  "RPlus r = RSeq r (RStar r)"

definition whitespace :: "char list" where
  "whitespace = [CHR 0x09, CHR 0x0A, CHR 0x0B, CHR 0x0C, CHR 0x0D, CHR 0x20, CHR 0xA0]"

definition emailRegex :: regex where
  "emailRegex =
     (let part = RPlus (RNotIn (whitespace @ ''@''))
      in RSeq part (RSeq (RChar CHR ''@'') (RSeq part (RSeq (RChar CHR ''.'') part))))"

subsection \<open>State and handlers\<close>

text \<open>
  The part of the screen's state the handlers below touch: the notifications switch,
  the blocked e-mails, the open modal, and the signed-in user's uid (\<open>None\<close> when there
  is none).
\<close>

record profile_state =
  notifications :: bool
  blockedUsers :: "string list"
  modal :: "string option"
  profile_user :: "string option"

definition initial_profile_state :: "string option \<Rightarrow> profile_state" where
  "initial_profile_state u =
     \<lparr> notifications = True, blockedUsers = [], modal = None, profile_user = u \<rparr>"

text \<open>
  \<^verbatim>\<open>
  const handleToggleNotifications = async (value: boolean) => {
    ... (the button animation)
    setNotifications(value)
    if (user) {
      try {
        await updateDoc(doc(db, "users", user.uid), { notifications: value })
      } catch (error) {
        console.error("Error updating notifications:", error)
        // Revert the change if update fails
        setNotifications(!value)
        Alert.alert("Error", "Failed to update notification settings.")
      }
    }
  }
  \<close>
  \<open>ok\<close> tells whether the awaited write succeeds.
\<close>

definition handleToggleNotifications :: "bool \<Rightarrow> bool \<Rightarrow> profile_state \<Rightarrow> profile_state \<times> effect list" where
  "handleToggleNotifications ok val st =
     (let st1 = st\<lparr>notifications := val\<rparr>
      in case profile_user st of
           None \<Rightarrow> (st1, [])
         | Some u \<Rightarrow>
             if ok then (st1, [UpdateDoc ''users'' u (Notifications val)])
             else (st1\<lparr>notifications := \<not> val\<rparr>,
                   [UpdateDoc ''users'' u (Notifications val),
                    ConsoleError ''Error updating notifications:'',
                    Alert ''Error'' ''Failed to update notification settings.'']))"

text \<open>
  The callback the Block User modal submits to:
  \<^verbatim>\<open>
  async (email: string) => {
    setModal(null)
    if (!email) return
    const emailRegex = /^[^\s@]+@[^\s@]+\.[^\s@]+$/
    if (!emailRegex.test(email)) {
      Alert.alert("Invalid Email", "Please enter a valid email address.")
      return
    }
    if (blockedUsers.includes(email)) {
      Alert.alert("Already Blocked", "This user is already blocked.")
      return
    }
    const updated = [...blockedUsers, email]
    setBlockedUsers(updated)
    if (user) {
      try {
        await updateDoc(doc(db, "users", user.uid), { blockedUsers: updated })
        Alert.alert("Blocked", `${email} has been blocked.`)
      } catch (error) {
        console.error("Error blocking user:", error)
        setBlockedUsers(blockedUsers) // Revert on error
        Alert.alert("Error", "Failed to block user.")
      }
    }
  }
  \<close>
\<close>

definition blockUser_onSubmit :: "bool \<Rightarrow> string \<Rightarrow> profile_state \<Rightarrow> profile_state \<times> effect list" where
  "blockUser_onSubmit ok email st =
     (let st0 = st\<lparr>modal := None\<rparr>
      in if email = [] then (st0, [])
         else if \<not> regex_test emailRegex email
           then (st0, [Alert ''Invalid Email'' ''Please enter a valid email address.''])
         else if email \<in> set (blockedUsers st)
           then (st0, [Alert ''Already Blocked'' ''This user is already blocked.''])
         else
           let updated = blockedUsers st @ [email];
               st1 = st0\<lparr>blockedUsers := updated\<rparr>
           in case profile_user st of
                None \<Rightarrow> (st1, [])
              | Some u \<Rightarrow>
                  if ok
                  then (st1, [UpdateDoc ''users'' u (BlockedUsers updated),
                              Alert ''Blocked'' (email @ '' has been blocked.'')])
                  else (st1\<lparr>blockedUsers := blockedUsers st\<rparr>,
                        [UpdateDoc ''users'' u (BlockedUsers updated),
                         ConsoleError ''Error blocking user:'',
                         Alert ''Error'' ''Failed to block user.'']))"

text \<open>
  The callback the Unblock User modal submits to:
  \<^verbatim>\<open>
  async (email: string) => {
    setModal(null)
    if (!email) return
    if (!blockedUsers.includes(email)) {
      Alert.alert("Not Blocked", "This user is not blocked.")
      return
    }
    const updated = blockedUsers.filter((u) => u !== email)
    setBlockedUsers(updated)
    if (user) {
      try {
        await updateDoc(doc(db, "users", user.uid), { blockedUsers: updated })
        Alert.alert("Unblocked", `${email} has been unblocked.`)
      } catch (error) {
        console.error("Error unblocking user:", error)
        setBlockedUsers(blockedUsers) // Revert on error
        Alert.alert("Error", "Failed to unblock user.")
      }
    }
  }
  \<close>
\<close>

definition unblockUser_onSubmit :: "bool \<Rightarrow> string \<Rightarrow> profile_state \<Rightarrow> profile_state \<times> effect list" where
  "unblockUser_onSubmit ok email st =
     (let st0 = st\<lparr>modal := None\<rparr>
      in if email = [] then (st0, [])
         else if email \<notin> set (blockedUsers st)
           then (st0, [Alert ''Not Blocked'' ''This user is not blocked.''])
         else
           let updated = filter (\<lambda>u. u \<noteq> email) (blockedUsers st);
               st1 = st0\<lparr>blockedUsers := updated\<rparr>
           in case profile_user st of
                None \<Rightarrow> (st1, [])
              | Some u \<Rightarrow>
                  if ok
                  then (st1, [UpdateDoc ''users'' u (BlockedUsers updated),
                              Alert ''Unblocked'' (email @ '' has been unblocked.'')])
                  else (st1\<lparr>blockedUsers := blockedUsers st\<rparr>,
                        [UpdateDoc ''users'' u (BlockedUsers updated),
                         ConsoleError ''Error unblocking user:'',
                         Alert ''Error'' ''Failed to unblock user.'']))"

text \<open>
  A session of the Manage Blocked Users dialog: each step submits an e-mail to one of
  the two callbacks, with the outcome of its write.
\<close>

datatype blocked_op = BlockUser bool string | UnblockUser bool string

fun manageBlocked :: "blocked_op \<Rightarrow> profile_state \<Rightarrow> profile_state" where
  "manageBlocked (BlockUser ok email) st = fst (blockUser_onSubmit ok email st)"
| "manageBlocked (UnblockUser ok email) st = fst (unblockUser_onSubmit ok email st)"

definition manageBlockedAll :: "blocked_op list \<Rightarrow> profile_state \<Rightarrow> profile_state" where
  "manageBlockedAll ops st = fold manageBlocked ops st"

definition example_profile :: profile_state where
  "example_profile =
     \<lparr> notifications = True, blockedUsers = [''a@b.co''], modal = Some ''blockUser'',
       profile_user = Some ''u1'' \<rparr>"

section \<open>Properties of the formatting helpers\<close>

lemma digit_val_digit: "d < 10 \<Longrightarrow> digit_val (digit d) = d"
proof -
  assume "d < 10"
  then have "d \<in> {0, 1, 2, 3, 4, 5, 6, 7, 8, 9}" by auto
  then show ?thesis
    by (auto simp: digit_val_def digit_def)
qed

lemma is_digit_digit: "d < 10 \<Longrightarrow> is_digit (digit d)"
proof -
  assume "d < 10"
  then have "d \<in> {0, 1, 2, 3, 4, 5, 6, 7, 8, 9}" by auto
  then show ?thesis
    by (auto simp: is_digit_def digit_def)
qed

lemma digits_val_snoc: "digits_val (s @ [c]) = 10 * digits_val s + digit_val c"
  by (simp add: digits_val_def)

lemma digits_val_digits: "digits_val (digits n) = n"
proof (induction n rule: digits.induct)
  case (1 n)
  show ?case
  proof (cases "n < 10")
    case True
    then show ?thesis
      by (simp add: digits.simps [of n] digits_val_def digit_val_digit)
  next
    case False
    with "1" have "digits_val (digits (n div 10)) = n div 10" by simp
    with False show ?thesis
      by (simp add: digits.simps [of n] digits_val_snoc digit_val_digit)
  qed
qed

lemma digits_all_digit: "\<forall>c \<in> set (digits n). is_digit c"
proof (induction n rule: digits.induct)
  case (1 n)
  show ?case
  proof (cases "n < 10")
    case True
    then show ?thesis
      by (simp add: digits.simps [of n] is_digit_digit)
  next
    case False
    with "1" have "\<forall>c \<in> set (digits (n div 10)). is_digit c" by simp
    with False show ?thesis
      by (simp add: digits.simps [of n] is_digit_digit)
  qed
qed

lemma digits_one: "n < 10 \<Longrightarrow> digits n = [digit n]"
  by (simp add: digits.simps [of n])

lemma digits_nonempty: "digits n \<noteq> []"
  by (subst digits.simps) simp

lemma decimal_val_digits: "decimal_val (digits n) = Some n"
  using digits_all_digit [of n]
  by (simp add: decimal_val_def digits_nonempty digits_val_digits list_all_iff)

lemma not_digit_point: "\<not> is_digit CHR ''.''"
  by (simp add: is_digit_def)

lemma decimal1_val_render:
  assumes "d < 10"
  shows "decimal1_val (digits k @ ''.'' @ [digit d]) = Some (of_nat k + of_nat d / 10)"
proof -
  have all: "\<And>c. c \<in> set (digits k) \<Longrightarrow> is_digit c"
    using digits_all_digit [of k] by simp
  have tw: "takeWhile is_digit (digits k @ ''.'' @ [digit d]) = digits k"
    using all by (simp add: takeWhile_append2 not_digit_point)
  have dw: "dropWhile is_digit (digits k @ ''.'' @ [digit d]) = [CHR ''.'', digit d]"
    using all by (simp add: dropWhile_append2 not_digit_point)
  show ?thesis
    unfolding decimal1_val_def tw dw
    using assms
    by (simp add: is_digit_digit digits_nonempty digits_val_digits digit_val_digit)
qed

lemma toFixed1_shape:
  assumes "0 \<le> x" and "x < 10 ^ 21" and "n = \<lfloor>x * 10 + 1 / 2\<rfloor>"
  shows "toFixed1 x = Returns (digits (nat (n div 10)) @ ''.'' @ [digit (nat (n mod 10))])"
proof -
  have n0: "0 \<le> n" using assms by simp
  then have q0: "0 \<le> n div 10" by simp
  have r0: "0 \<le> n mod 10" and r10: "n mod 10 < 10" by simp_all
  then have "nat (n mod 10) < 10" by simp
  then have "decimal (n div 10) @ ''.'' @ decimal (n mod 10)
      = digits (nat (n div 10)) @ ''.'' @ [digit (nat (n mod 10))]"
    using q0 r0 by (simp add: decimal_def digits_one)
  moreover have "toFixed1 x = Returns (decimal (n div 10) @ ''.'' @ decimal (n mod 10))"
    using assms by (simp add: toFixed1_def Let_def abs_of_nonneg)
  ultimately show ?thesis by simp
qed

lemma toFixed1_rendered:
  assumes "0 \<le> x" and "x < 10 ^ 21"
  shows "\<exists>s. toFixed1 x = Returns s \<and> rendered_one_decimal x s"
proof -
  define n where "n = \<lfloor>x * 10 + 1 / 2\<rfloor>"
  define s where "s = digits (nat (n div 10)) @ ''.'' @ [digit (nat (n mod 10))]"
  have n0: "0 \<le> n" using assms by (simp add: n_def)
  then have q0: "0 \<le> n div 10" by simp
  have d10: "nat (n mod 10) < 10" by simp
  have ret: "toFixed1 x = Returns s"
    unfolding s_def using assms n_def by (rule toFixed1_shape)
  have val: "decimal1_val s = Some (of_nat (nat (n div 10)) + of_nat (nat (n mod 10)) / 10)"
    unfolding s_def using d10 by (rule decimal1_val_render)
  have "(of_nat (nat (n div 10)) :: rat) = of_int (n div 10)"
    using q0 by simp
  moreover have "(of_nat (nat (n mod 10)) :: rat) = of_int (n mod 10)"
    by simp
  moreover have "(of_int (n div 10) :: rat) * 10 + of_int (n mod 10) = of_int n"
  proof -
    have "(n div 10) * 10 + n mod 10 = n" by simp
    then have "(of_int ((n div 10) * 10 + n mod 10) :: rat) = of_int n" by (simp only:)
    then show ?thesis by (simp only: of_int_add of_int_mult of_int_numeral)
  qed
  ultimately have "(of_nat (nat (n div 10)) + of_nat (nat (n mod 10)) / 10 :: rat) = of_int n / 10"
    by (simp add: field_simps)
  then have v: "decimal1_val s = Some (of_int n / 10)"
    using val by simp
  have lo: "of_int n \<le> x * 10 + 1 / 2" unfolding n_def by linarith
  have hi: "x * 10 + 1 / 2 < of_int n + 1" unfolding n_def by linarith
  have "\<bar>x - of_int n / 10\<bar> \<le> 1 / 20"
    using lo hi by linarith
  then have "rendered_one_decimal x s"
    by (simp add: rendered_one_decimal_def v)
  with ret show ?thesis by blast
qed

lemma decimal_val_pad2: "n < 100 \<Longrightarrow> decimal_val (pad2 n) = Some n"
proof -
  assume "n < 100"
  then have "n div 10 < 10" and "n mod 10 < 10" by simp_all
  then show ?thesis
    by (simp add: decimal_val_def pad2_def is_digit_digit digits_val_def digit_val_digit)
qed

lemma floor_div_60:
  fixes s :: rat
  shows "\<lfloor>s / 60\<rfloor> = \<lfloor>s\<rfloor> div 60"
proof (rule floor_unique)
  define q r where "q = \<lfloor>s\<rfloor> div 60" and "r = \<lfloor>s\<rfloor> mod 60"
  have split: "\<lfloor>s\<rfloor> = 60 * q + r" by (simp add: q_def r_def)
  have r: "0 \<le> r" "r < 60" by (simp_all add: r_def)
  have lo: "of_int \<lfloor>s\<rfloor> \<le> s" and hi: "s < of_int \<lfloor>s\<rfloor> + 1" by linarith+
  have "60 * q \<le> \<lfloor>s\<rfloor>" using split r by linarith
  then have "(of_int (60 * q) :: rat) \<le> of_int \<lfloor>s\<rfloor>"
    by (simp only: of_int_le_iff)
  then have "60 * (of_int q :: rat) \<le> of_int \<lfloor>s\<rfloor>" by simp
  then have "60 * of_int q \<le> s" using lo by (rule order_trans)
  then show "of_int (\<lfloor>s\<rfloor> div 60) \<le> s / 60"
    by (simp add: q_def)
  have "\<lfloor>s\<rfloor> + 1 \<le> 60 * q + 60" using split r by linarith
  then have "(of_int (\<lfloor>s\<rfloor> + 1) :: rat) \<le> of_int (60 * q + 60)"
    by (simp only: of_int_le_iff)
  then have "(of_int \<lfloor>s\<rfloor> :: rat) + 1 \<le> of_int (60 * q + 60)"
    by simp
  then have "(of_int \<lfloor>s\<rfloor> :: rat) + 1 \<le> 60 * of_int q + 60" by simp
  with hi have "s < 60 * of_int q + 60" by (rule less_le_trans)
  then show "s / 60 < of_int (\<lfloor>s\<rfloor> div 60) + 1"
    by (simp add: q_def)
qed

lemma formatDuration_parts:
  assumes "0 < s" and "s < 2 ^ 53"
  shows "formatDuration (Some s) =
         Returns (decimal (\<lfloor>s\<rfloor> div 60) @ '':'' @
           (if \<lfloor>s\<rfloor> mod 60 < 10 then ''0'' else []) @ decimal (\<lfloor>s\<rfloor> mod 60))"
proof -
  have "js_trunc (s / 60) = \<lfloor>s\<rfloor> div 60"
    using assms(1) by (simp add: js_trunc_def floor_div_60)
  then have "js_rem s 60 = s - of_int (60 * (\<lfloor>s\<rfloor> div 60))"
    by (simp add: js_rem_def)
  then have "\<lfloor>js_rem s 60\<rfloor> = \<lfloor>s\<rfloor> - 60 * (\<lfloor>s\<rfloor> div 60)"
    by (simp only: floor_diff_of_int)
  also have "\<dots> = \<lfloor>s\<rfloor> mod 60"
    by (simp add: minus_mult_div_eq_mod)
  finally have secs: "\<lfloor>js_rem s 60\<rfloor> = \<lfloor>s\<rfloor> mod 60" .
  have range: "\<not> (s < 0 \<or> 2 ^ 53 \<le> s)" and nz: "s \<noteq> 0"
    using assms by simp_all
  show ?thesis
    unfolding formatDuration_def using range nz
    by (simp add: Let_def secs floor_div_60)
qed

lemma pad_two_digits:
  assumes "r < 60"
  shows "(if int r < 10 then ''0'' else []) @ decimal (int r) = pad2 r"
proof (cases "r < 10")
  case True
  then show ?thesis
    by (simp add: decimal_def digits_one pad2_def digit_def)
next
  case False
  with assms have "r div 10 < 10" by simp
  with False show ?thesis
    by (simp add: decimal_def digits.simps [of r] digits_one pad2_def)
qed

text \<open>
  C7. For every positive duration in seconds, \<open>formatDuration\<close> returns the whole
  number of minutes, a colon, and the remaining whole seconds written with two digits
  (zero-padded); for an absent or zero duration it returns \<open>0:00\<close>. The minutes part
  reads back as the whole minutes, the seconds part as the remaining seconds, which are
  below 60, and together they make up the whole seconds of the duration. Durations are
  those below \<open>2^53\<close> seconds, where the model is the code.
\<close>

theorem formatDuration_minutes_seconds:
  "(0 < s \<and> s < 2 ^ 53 \<longrightarrow>
      formatDuration (Some s) = Returns (digits (whole_minutes s) @ '':'' @ pad2 (remaining_seconds s))
      \<and> decimal_val (digits (whole_minutes s)) = Some (whole_minutes s)
      \<and> length (pad2 (remaining_seconds s)) = 2
      \<and> decimal_val (pad2 (remaining_seconds s)) = Some (remaining_seconds s)
      \<and> remaining_seconds s < 60
      \<and> 60 * whole_minutes s + remaining_seconds s = nat \<lfloor>s\<rfloor>)
   \<and> formatDuration None = Returns ''0:00''
   \<and> formatDuration (Some 0) = Returns ''0:00''"
proof -
  have pos: "formatDuration (Some s) = Returns (digits (whole_minutes s) @ '':'' @ pad2 (remaining_seconds s))"
    if "0 < s" and "s < 2 ^ 53"
  proof -
    have f0: "0 \<le> \<lfloor>s\<rfloor>" using that by simp
    define t where "t = nat \<lfloor>s\<rfloor>"
    have t: "\<lfloor>s\<rfloor> = int t" using f0 by (simp add: t_def)
    have m: "\<lfloor>s\<rfloor> div 60 = int (t div 60)" and r: "\<lfloor>s\<rfloor> mod 60 = int (t mod 60)"
      by (simp_all add: t zdiv_int zmod_int)
    have "t mod 60 < 60" by simp
    then have "(if int (t mod 60) < 10 then ''0'' else []) @ decimal (int (t mod 60)) = pad2 (t mod 60)"
      by (rule pad_two_digits)
    moreover have "decimal (int (t div 60)) = digits (t div 60)"
      by (simp add: decimal_def)
    ultimately show ?thesis
      unfolding formatDuration_parts [OF that] m r whole_minutes_def remaining_seconds_def t_def [symmetric]
      by simp
  qed
  have "remaining_seconds s < 100" by (simp add: remaining_seconds_def)
  then have "decimal_val (pad2 (remaining_seconds s)) = Some (remaining_seconds s)"
    by (rule decimal_val_pad2)
  moreover have "formatDuration None = Returns ''0:00''" "formatDuration (Some 0) = Returns ''0:00''"
    by (simp_all add: formatDuration_def)
  moreover have "60 * whole_minutes s + remaining_seconds s = nat \<lfloor>s\<rfloor>"
    by (simp add: whole_minutes_def remaining_seconds_def)
  ultimately show ?thesis
    using pos by (simp add: decimal_val_digits pad2_def remaining_seconds_def)
qed

theorem formatDuration_minutes_seconds_witness:
  "(0::rat) < 247 / 2 \<and> (247 / 2 :: rat) < 2 ^ 53
   \<and> formatDuration (Some (247 / 2)) = Returns ''2:03''"
proof -
  have p: "(0::rat) < 247 / 2" and q: "(247 / 2 :: rat) < 2 ^ 53" by simp_all
  have m: "digits (whole_minutes (247 / 2)) = ''2''" by code_simp
  have r: "pad2 (remaining_seconds (247 / 2)) = ''03''" by code_simp
  from formatDuration_minutes_seconds [of "247 / 2"] p q
  have "formatDuration (Some (247 / 2)) =
        Returns (digits (whole_minutes (247 / 2)) @ '':'' @ pad2 (remaining_seconds (247 / 2)))"
    by blast
  then have "formatDuration (Some (247 / 2)) = Returns ''2:03''"
    by (simp add: m r)
  with p q show ?thesis by blast
qed

text \<open>
  C6. For every positive byte count, \<open>formatFileSize\<close> returns the count followed by
  \<open>B\<close> when it is below 1024, the count divided by 1024 rendered to one decimal place
  followed by \<open>KB\<close> when it is at least 1024 and below 1048576, and the count divided
  by 1048576 rendered to one decimal place followed by \<open>MB\<close> otherwise; for an absent
  byte count it returns \<open>Unknown size\<close>. Byte counts are those below \<open>2^53\<close>, where the
  model is the code.
\<close>

theorem formatFileSize_rendering:
  assumes "0 < b" and "b < 2 ^ 53"
  shows "(b < 1024 \<longrightarrow>
            formatFileSize (Some b) = Returns (decimal b @ '' B'')
            \<and> decimal_val (decimal b) = Some (nat b))
       \<and> (1024 \<le> b \<and> b < 1048576 \<longrightarrow>
            (\<exists>s. toFixed1 (of_int b / 1024) = Returns s
                 \<and> formatFileSize (Some b) = Returns (s @ '' KB'')
                 \<and> rendered_one_decimal (of_int b / 1024) s))
       \<and> (1048576 \<le> b \<longrightarrow>
            (\<exists>s. toFixed1 (of_int b / 1048576) = Returns s
                 \<and> formatFileSize (Some b) = Returns (s @ '' MB'')
                 \<and> rendered_one_decimal (of_int b / 1048576) s))
       \<and> formatFileSize None = Returns ''Unknown size''"
proof -
  have small: "decimal_val (decimal b) = Some (nat b)"
    using assms by (simp add: decimal_def decimal_val_digits)
  have inr: "\<not> 2 ^ 53 \<le> \<bar>b\<bar>" and nz: "b \<noteq> 0"
    using assms by simp_all
  have "(of_int b :: rat) < 2 ^ 53"
    using assms(2) by (metis of_int_less_iff of_int_numeral of_int_power)
  then have lt: "(of_int b / 1024 :: rat) < 10 ^ 21" "(of_int b / 1048576 :: rat) < 10 ^ 21"
    by simp_all
  have ge: "(0::rat) \<le> of_int b / 1024" "(0::rat) \<le> of_int b / 1048576"
    using assms(1) by simp_all
  obtain k where k: "toFixed1 (of_int b / 1024) = Returns k"
      "rendered_one_decimal (of_int b / 1024) k"
    using toFixed1_rendered [OF ge(1) lt(1)] by blast
  obtain m where m: "toFixed1 (of_int b / 1048576) = Returns m"
      "rendered_one_decimal (of_int b / 1048576) m"
    using toFixed1_rendered [OF ge(2) lt(2)] by blast
  have kb: "formatFileSize (Some b) = Returns (k @ '' KB'')" if "1024 \<le> b" "b < 1048576"
    unfolding formatFileSize_def using that inr nz by (simp add: k suffixed_def)
  have mb: "formatFileSize (Some b) = Returns (m @ '' MB'')" if "1048576 \<le> b"
    unfolding formatFileSize_def using that inr nz by (simp add: m suffixed_def)
  have bb: "formatFileSize (Some b) = Returns (decimal b @ '' B'')" if "b < 1024"
    unfolding formatFileSize_def using that inr nz by simp
  have none: "formatFileSize None = Returns ''Unknown size''"
    by (simp add: formatFileSize_def)
  show ?thesis
    using small k m kb mb bb none by blast
qed

theorem formatFileSize_rendering_witness:
  "(0::int) < 512 \<and> (512::int) < 2 ^ 53 \<and> formatFileSize (Some 512) = Returns ''512 B''
   \<and> (0::int) < 1536 \<and> (1536::int) < 2 ^ 53 \<and> formatFileSize (Some 1536) = Returns ''1.5 KB''
   \<and> (0::int) < 5242880 \<and> (5242880::int) < 2 ^ 53
   \<and> formatFileSize (Some 5242880) = Returns ''5.0 MB''"
proof -
  have a: "decimal 512 = ''512''" by code_simp
  have b: "toFixed1 (of_int 1536 / 1024) = Returns ''1.5''" by code_simp
  have c: "toFixed1 (of_int 5242880 / 1048576) = Returns ''5.0''" by code_simp
  have p: "(0::int) < 512" "(512::int) < 2 ^ 53" "(0::int) < 1536" "(1536::int) < 2 ^ 53"
      "(0::int) < 5242880" "(5242880::int) < 2 ^ 53"
    by simp_all
  from formatFileSize_rendering [OF p(1,2)]
  have x: "formatFileSize (Some 512) = Returns ''512 B''"
    by (simp add: a)
  from formatFileSize_rendering [OF p(3,4)]
  have y: "formatFileSize (Some 1536) = Returns ''1.5 KB''"
    using b by auto
  from formatFileSize_rendering [OF p(5,6)]
  have z: "formatFileSize (Some 5242880) = Returns ''5.0 MB''"
    using c by auto
  from p x y z show ?thesis by blast
qed

text \<open>
  C10. A byte count of exactly 0 is treated like an absent byte count: the result is
  \<open>Unknown size\<close>, not \<open>0 B\<close>.
\<close>

theorem formatFileSize_zero_unknown:
  "formatFileSize (Some 0) = Returns ''Unknown size''
   \<and> formatFileSize (Some 0) = formatFileSize None
   \<and> formatFileSize (Some 0) \<noteq> Returns ''0 B''"
  by (simp add: formatFileSize_def)

section \<open>Properties of the chat screen\<close>

lemma toMessage_id [simp]: "msg_id (toMessage d) = doc_id d"
  by (simp add: toMessage_def)

lemma markMessagesAsRead_Some:
  "markMessagesAsRead (Some u) msgs =
   map (\<lambda>m. UpdateDoc ''messages'' (msg_id m) (ReadBy (readBy m @ [uid u]))) (filter (unread u) msgs)"
  by (simp add: markMessagesAsRead_def Let_def)

lemma same_id_same_message:
  assumes "distinct (map msg_id ms)" and "m \<in> set ms" and "m' \<in> set ms" and "msg_id m = msg_id m'"
  shows "m = m'"
  using assms by (auto simp: distinct_map dest: inj_onD)

text \<open>
  C2. When the chat screen processes a snapshot, the writes it issues are exactly one
  per message whose sender is not the current user and whose \<open>readBy\<close> list does not
  contain the current user's uid, each replacing \<open>readBy\<close> by the list with the uid
  appended; a message sent by the current user, or already containing the uid, gets no
  write (document ids being distinct within a snapshot).
\<close>

theorem snapshot_marks_unread:
  assumes "user st = Some u"
  shows "let ms = messages (fst (onSnapshot snapshot st)); fx = snd (onSnapshot snapshot st) in
     ms = map toMessage snapshot
     \<and> filter is_write fx =
         map (\<lambda>m. UpdateDoc ''messages'' (msg_id m) (ReadBy (readBy m @ [uid u])))
           (filter (\<lambda>m. senderId m \<noteq> uid u \<and> uid u \<notin> set (readBy m)) ms)
     \<and> (\<forall>m \<in> set ms. senderId m \<noteq> uid u \<and> uid u \<notin> set (readBy m) \<longrightarrow>
           UpdateDoc ''messages'' (msg_id m) (ReadBy (readBy m @ [uid u])) \<in> set fx)
     \<and> (distinct (map doc_id snapshot) \<longrightarrow>
          (\<forall>m \<in> set ms. senderId m = uid u \<or> uid u \<in> set (readBy m) \<longrightarrow>
             (\<forall>c f. UpdateDoc c (msg_id m) f \<notin> set fx)))"
proof -
  define ms where "ms = map toMessage snapshot"
  define W where "W = map (\<lambda>m. UpdateDoc ''messages'' (msg_id m) (ReadBy (readBy m @ [uid u]))) (filter (unread u) ms)"
  have fst: "messages (fst (onSnapshot snapshot st)) = ms"
    by (simp add: onSnapshot_def Let_def ms_def)
  have snd: "snd (onSnapshot snapshot st) = W @ [ScrollToEnd]"
    using assms by (simp add: onSnapshot_def Let_def ms_def W_def markMessagesAsRead_Some)
  have un: "unread u = (\<lambda>m. senderId m \<noteq> uid u \<and> uid u \<notin> set (readBy m))"
    by (rule ext) (simp add: unread_def)
  have allw: "filter is_write W = W"
    by (simp add: W_def filter_map o_def)
  have a: "filter is_write (W @ [ScrollToEnd]) =
      map (\<lambda>m. UpdateDoc ''messages'' (msg_id m) (ReadBy (readBy m @ [uid u])))
        (filter (\<lambda>m. senderId m \<noteq> uid u \<and> uid u \<notin> set (readBy m)) ms)"
    using allw by (simp add: W_def un)
  have b: "\<forall>m \<in> set ms. senderId m \<noteq> uid u \<and> uid u \<notin> set (readBy m) \<longrightarrow>
      UpdateDoc ''messages'' (msg_id m) (ReadBy (readBy m @ [uid u])) \<in> set (W @ [ScrollToEnd])"
    by (auto simp: W_def unread_def)
  have c: "\<forall>m \<in> set ms. senderId m = uid u \<or> uid u \<in> set (readBy m) \<longrightarrow>
      (\<forall>c f. UpdateDoc c (msg_id m) f \<notin> set (W @ [ScrollToEnd]))"
    if d: "distinct (map doc_id snapshot)"
  proof (intro ballI impI allI notI)
    fix m c f
    assume m: "m \<in> set ms" and read: "senderId m = uid u \<or> uid u \<in> set (readBy m)"
      and w: "UpdateDoc c (msg_id m) f \<in> set (W @ [ScrollToEnd])"
    from w obtain m' where m': "m' \<in> set ms" "unread u m'" "msg_id m' = msg_id m"
      by (auto simp: W_def)
    have "distinct (map msg_id ms)" using d by (simp add: ms_def o_def)
    then have "m' = m" using m'(1) m m'(3) by (rule same_id_same_message)
    with m'(2) read show False by (auto simp: unread_def)
  qed
  show ?thesis
    unfolding Let_def fst snd using a b c by (simp add: ms_def)
qed

theorem snapshot_marks_unread_witness:
  "user example_state = Some example_user
   \<and> distinct (map doc_id example_snapshot)
   \<and> filter is_write (snd (onSnapshot example_snapshot example_state)) =
       [UpdateDoc ''messages'' ''m1'' (ReadBy [''u2'', ''u1''])]
   \<and> (\<forall>c f. UpdateDoc c ''m2'' f \<notin> set (snd (onSnapshot example_snapshot example_state)))"
proof -
  have h: "user example_state = Some example_user"
    by (simp add: example_state_def)
  have d: "distinct (map doc_id example_snapshot)"
    by (simp add: example_snapshot_def example_doc_def)
  note t = snapshot_marks_unread [OF h, of example_snapshot, unfolded Let_def]
  from t have ms: "messages (fst (onSnapshot example_snapshot example_state)) = map toMessage example_snapshot"
    by blast
  from t have "filter is_write (snd (onSnapshot example_snapshot example_state)) =
      map (\<lambda>m. UpdateDoc ''messages'' (msg_id m) (ReadBy (readBy m @ [uid example_user])))
        (filter (\<lambda>m. senderId m \<noteq> uid example_user \<and> uid example_user \<notin> set (readBy m))
          (messages (fst (onSnapshot example_snapshot example_state))))"
    by blast
  then have w: "filter is_write (snd (onSnapshot example_snapshot example_state)) =
       [UpdateDoc ''messages'' ''m1'' (ReadBy [''u2'', ''u1''])]"
    unfolding ms
    by (simp add: example_snapshot_def example_doc_def example_user_def toMessage_def or_default_def)
  from t d have "\<forall>m \<in> set (messages (fst (onSnapshot example_snapshot example_state))).
      senderId m = uid example_user \<or> uid example_user \<in> set (readBy m) \<longrightarrow>
      (\<forall>c f. UpdateDoc c (msg_id m) f \<notin> set (snd (onSnapshot example_snapshot example_state)))"
    by blast
  then have "\<forall>c f. UpdateDoc c ''m2'' f \<notin> set (snd (onSnapshot example_snapshot example_state))"
    unfolding ms
    by (simp add: example_snapshot_def example_doc_def example_user_def toMessage_def or_default_def)
  with h d w show ?thesis by blast
qed

lemma fold_updates:
  assumes "distinct (map msg_id sel)"
  shows "fold applyEffect (map (\<lambda>m. UpdateDoc ''messages'' (msg_id m) (ReadBy (g m))) sel) ds =
         map (\<lambda>d. case find (\<lambda>m. msg_id m = doc_id d) sel of
                     None \<Rightarrow> d | Some m \<Rightarrow> d\<lparr>d_readBy := Some (g m)\<rparr>) ds"
  using assms
proof (induction sel arbitrary: ds)
  case Nil
  then show ?case by simp
next
  case (Cons s sel)
  have fresh: "find (\<lambda>m. msg_id m = msg_id s) sel = None"
    using Cons.prems by (auto simp: find_None_iff image_iff)
  have "fold applyEffect (map (\<lambda>m. UpdateDoc ''messages'' (msg_id m) (ReadBy (g m))) (s # sel)) ds =
        fold applyEffect (map (\<lambda>m. UpdateDoc ''messages'' (msg_id m) (ReadBy (g m))) sel)
          (map (\<lambda>d. if doc_id d = msg_id s then d\<lparr>d_readBy := Some (g s)\<rparr> else d) ds)"
    by simp
  also have "\<dots> = map (\<lambda>d. case find (\<lambda>m. msg_id m = doc_id d) sel of
                     None \<Rightarrow> d | Some m \<Rightarrow> d\<lparr>d_readBy := Some (g m)\<rparr>)
          (map (\<lambda>d. if doc_id d = msg_id s then d\<lparr>d_readBy := Some (g s)\<rparr> else d) ds)"
    using Cons.prems by (intro Cons.IH) simp
  also have "\<dots> = map (\<lambda>d. case find (\<lambda>m. msg_id m = doc_id d) (s # sel) of
                     None \<Rightarrow> d | Some m \<Rightarrow> d\<lparr>d_readBy := Some (g m)\<rparr>) ds"
    using fresh by (auto simp: o_def)
  finally show ?case .
qed

lemma find_in_filter:
  assumes "distinct (map doc_id ds)" and "d \<in> set ds"
  shows "find (\<lambda>m. msg_id m = doc_id d) (map toMessage (filter P ds)) =
         (if P d then Some (toMessage d) else None)"
  using assms
proof (induction ds)
  case Nil
  then show ?case by simp
next
  case (Cons x xs)
  show ?case
  proof (cases "d = x")
    case True
    have "find (\<lambda>m. msg_id m = doc_id x) (map toMessage (filter P xs)) = None"
      using Cons.prems(1) by (auto simp: find_None_iff image_iff)
    with True show ?thesis by simp
  next
    case False
    with Cons.prems have "d \<in> set xs" and "doc_id x \<noteq> doc_id d" by auto
    with Cons show ?thesis by simp
  qed
qed

lemma markRead_patch:
  assumes "distinct (map doc_id ds)"
  shows "markRead u ds = map (patch u) ds"
proof -
  let ?P = "\<lambda>d. unread u (toMessage d)"
  have sel: "filter (unread u) (map toMessage ds) = map toMessage (filter ?P ds)"
    by (simp add: filter_map o_def)
  have dist: "distinct (map msg_id (map toMessage (filter ?P ds)))"
    using assms by (simp add: o_def distinct_map_filter)
  have "markRead u ds =
        map (\<lambda>d. case find (\<lambda>m. msg_id m = doc_id d) (map toMessage (filter ?P ds)) of
                    None \<Rightarrow> d | Some m \<Rightarrow> d\<lparr>d_readBy := Some (readBy m @ [uid u])\<rparr>) ds"
    unfolding markRead_def applyEffects_def markMessagesAsRead_Some sel
    using dist by (rule fold_updates)
  also have "\<dots> = map (patch u) ds"
  proof (rule map_cong [OF refl])
    fix d assume "d \<in> set ds"
    with assms show "(case find (\<lambda>m. msg_id m = doc_id d) (map toMessage (filter ?P ds)) of
                    None \<Rightarrow> d | Some m \<Rightarrow> d\<lparr>d_readBy := Some (readBy m @ [uid u])\<rparr>) = patch u d"
      by (simp add: find_in_filter patch_def)
  qed
  finally show ?thesis .
qed

lemma patch_id [simp]: "doc_id (patch u d) = doc_id d"
  by (simp add: patch_def)

lemma patch_read: "\<not> unread u (toMessage (patch u d))"
  by (auto simp: patch_def unread_def toMessage_def)

lemma patch_patch: "patch u (patch u d) = patch u d"
  using patch_read [of u d] by (simp add: patch_def [of u "patch u d"])

lemma readBy_patch:
  "readBy (toMessage (patch u d)) =
   (if unread u (toMessage d) then readBy (toMessage d) @ [uid u] else readBy (toMessage d))"
  by (simp add: patch_def toMessage_def)

lemma stale_writes_again:
  assumes "distinct (map doc_id ds)"
  shows "applyEffects (markMessagesAsRead (Some u) (map toMessage ds)) (map (patch u) ds) = map (patch u) ds"
proof -
  let ?P = "\<lambda>d. unread u (toMessage d)"
  have sel: "filter (unread u) (map toMessage ds) = map toMessage (filter ?P ds)"
    by (simp add: filter_map o_def)
  have dist: "distinct (map msg_id (map toMessage (filter ?P ds)))"
    using assms by (simp add: o_def distinct_map_filter)
  have "applyEffects (markMessagesAsRead (Some u) (map toMessage ds)) (map (patch u) ds) =
        map (\<lambda>d. case find (\<lambda>m. msg_id m = doc_id d) (map toMessage (filter ?P ds)) of
                    None \<Rightarrow> d | Some m \<Rightarrow> d\<lparr>d_readBy := Some (readBy m @ [uid u])\<rparr>) (map (patch u) ds)"
    unfolding applyEffects_def markMessagesAsRead_Some sel
    using dist by (rule fold_updates)
  also have "\<dots> = map (patch u) ds"
    unfolding map_map
  proof (rule map_cong [OF refl])
    fix d assume "d \<in> set ds"
    with assms have "find (\<lambda>m. msg_id m = doc_id d) (map toMessage (filter ?P ds)) =
        (if ?P d then Some (toMessage d) else None)"
      by (rule find_in_filter)
    then show "((\<lambda>d. case find (\<lambda>m. msg_id m = doc_id d) (map toMessage (filter ?P ds)) of
                    None \<Rightarrow> d | Some m \<Rightarrow> d\<lparr>d_readBy := Some (readBy m @ [uid u])\<rparr>) \<circ> patch u) d = patch u d"
      by (simp add: patch_def)
  qed
  finally show ?thesis .
qed

text \<open>
  C9. Marking messages as read is idempotent and monotone. A second round on the
  updated collection changes nothing and issues no write, and the writes of the first
  round landing a second time change nothing either. In every document the \<open>readBy\<close>
  list is either unchanged or the old list with the uid appended once, and then the uid
  was not in it; every uid that was present is still present.
\<close>

theorem markRead_idempotent_monotone:
  assumes "distinct (map doc_id ds)"
  shows "markRead u (markRead u ds) = markRead u ds
       \<and> applyEffects (markMessagesAsRead (Some u) (map toMessage ds)) (markRead u ds) = markRead u ds
       \<and> markMessagesAsRead (Some u) (map toMessage (markRead u ds)) = []
       \<and> length (markRead u ds) = length ds
       \<and> (\<forall>i < length ds.
            doc_id (markRead u ds ! i) = doc_id (ds ! i)
            \<and> (readBy (toMessage (markRead u ds ! i)) = readBy (toMessage (ds ! i))
               \<or> (uid u \<notin> set (readBy (toMessage (ds ! i)))
                  \<and> readBy (toMessage (markRead u ds ! i)) = readBy (toMessage (ds ! i)) @ [uid u]))
            \<and> set (readBy (toMessage (ds ! i))) \<subseteq> set (readBy (toMessage (markRead u ds ! i))))"
proof -
  have once: "markRead u ds = map (patch u) ds"
    using assms by (rule markRead_patch)
  have "distinct (map doc_id (map (patch u) ds))"
    using assms by (simp add: o_def)
  then have "markRead u (map (patch u) ds) = map (patch u) (map (patch u) ds)"
    by (rule markRead_patch)
  then have twice: "markRead u (markRead u ds) = markRead u ds"
    by (simp add: once o_def patch_patch)
  have stale: "applyEffects (markMessagesAsRead (Some u) (map toMessage ds)) (markRead u ds) = markRead u ds"
    unfolding once using assms by (rule stale_writes_again)
  have none: "markMessagesAsRead (Some u) (map toMessage (markRead u ds)) = []"
    by (simp add: once markMessagesAsRead_Some filter_empty_conv patch_read)
  have each: "doc_id (markRead u ds ! i) = doc_id (ds ! i)
            \<and> (readBy (toMessage (markRead u ds ! i)) = readBy (toMessage (ds ! i))
               \<or> (uid u \<notin> set (readBy (toMessage (ds ! i)))
                  \<and> readBy (toMessage (markRead u ds ! i)) = readBy (toMessage (ds ! i)) @ [uid u]))
            \<and> set (readBy (toMessage (ds ! i))) \<subseteq> set (readBy (toMessage (markRead u ds ! i)))"
    if "i < length ds" for i
    using that by (auto simp: once readBy_patch unread_def)
  show ?thesis
    using twice stale none each by (simp add: once)
qed

theorem markRead_idempotent_monotone_witness:
  "distinct (map doc_id example_snapshot)
   \<and> map (\<lambda>d. readBy (toMessage d)) (markRead example_user example_snapshot) =
       [''u2'', ''u1''] # [''u1''] # [''u2'', ''u1''] # []
   \<and> markRead example_user (markRead example_user example_snapshot) = markRead example_user example_snapshot"
proof -
  have d: "distinct (map doc_id example_snapshot)"
    by (simp add: example_snapshot_def example_doc_def)
  have v: "map (\<lambda>d. readBy (toMessage d)) (markRead example_user example_snapshot) =
       [''u2'', ''u1''] # [''u1''] # [''u2'', ''u1''] # []"
    by (simp add: markRead_def applyEffects_def markMessagesAsRead_def unread_def Let_def
        example_snapshot_def example_doc_def example_user_def toMessage_def or_default_def)
  from markRead_idempotent_monotone [OF d, of example_user]
  have "markRead example_user (markRead example_user example_snapshot) = markRead example_user example_snapshot"
    by blast
  with d v show ?thesis by blast
qed

text \<open>
  C4. For an authenticated user whose profile document does not exist or has a role
  other than \<open>employee\<close>, the chat screen navigates back (after an Access Denied alert
  when the document exists), leaves its state as it was, so that user is never stored
  as the screen's user, and from the screen's initial state no message subscription
  is established, whatever the city.
\<close>

theorem non_employee_denied:
  assumes "docSnap = None \<or> (\<exists>userData. docSnap = Some userData \<and> u_role userData \<noteq> Some ''employee'')"
  shows "fst (onAuthStateChanged (Some auth_uid) docSnap st) = st
       \<and> RouterBack \<in> set (snd (onAuthStateChanged (Some auth_uid) docSnap st))
       \<and> (docSnap \<noteq> None \<longrightarrow>
            Alert ''Access Denied'' ''Only employees can access this chat''
              \<in> set (snd (onAuthStateChanged (Some auth_uid) docSnap st)))
       \<and> user (fst (onAuthStateChanged (Some auth_uid) docSnap initial_chat_state)) = None
       \<and> (\<forall>cityParam. snd (messagesEffect cityParam
              (fst (onAuthStateChanged (Some auth_uid) docSnap initial_chat_state))) = None)"
proof -
  have same: "fst (onAuthStateChanged (Some auth_uid) docSnap s) = s" for s
    using assms by (auto simp: onAuthStateChanged_def)
  have nav: "RouterBack \<in> set (snd (onAuthStateChanged (Some auth_uid) docSnap st))"
    using assms by (auto simp: onAuthStateChanged_def)
  have alert: "docSnap \<noteq> None \<longrightarrow>
      Alert ''Access Denied'' ''Only employees can access this chat''
        \<in> set (snd (onAuthStateChanged (Some auth_uid) docSnap st))"
    using assms by (auto simp: onAuthStateChanged_def)
  have nouser: "user initial_chat_state = None"
    by (simp add: initial_chat_state_def)
  then have nosub: "snd (messagesEffect cityParam initial_chat_state) = None" for cityParam
    by (simp add: messagesEffect_def split: option.split)
  show ?thesis
    using nav alert nouser nosub by (simp add: same)
qed

theorem non_employee_denied_witness:
  "u_role example_customer \<noteq> Some ''employee''
   \<and> snd (onAuthStateChanged (Some ''u7'') (Some example_customer) initial_chat_state) =
       [Alert ''Access Denied'' ''Only employees can access this chat'', RouterBack]
   \<and> snd (messagesEffect (Some ''Pune'')
        (fst (onAuthStateChanged (Some ''u7'') (Some example_customer) initial_chat_state))) = None"
proof -
  have r: "u_role example_customer \<noteq> Some ''employee''"
    by (simp add: example_customer_def)
  then have h: "Some example_customer = None \<or>
      (\<exists>userData. Some example_customer = Some userData \<and> u_role userData \<noteq> Some ''employee'')"
    by simp
  have fx: "snd (onAuthStateChanged (Some ''u7'') (Some example_customer) initial_chat_state) =
       [Alert ''Access Denied'' ''Only employees can access this chat'', RouterBack]"
    using r by (simp add: onAuthStateChanged_def)
  from non_employee_denied [OF h, of "''u7''" initial_chat_state]
  have "snd (messagesEffect (Some ''Pune'')
        (fst (onAuthStateChanged (Some ''u7'') (Some example_customer) initial_chat_state))) = None"
    by blast
  with r fx show ?thesis by blast
qed

lemma value_le_timestamps:
  assumes "value_le (map_option VTimestamp x) (map_option VTimestamp y)"
    and "x = Some a" and "y = Some b"
  shows "ts_nanos a \<le> ts_nanos b"
  using assms by simp

lemma admits_messagesQuery:
  "list_all (\<lambda>k. admits k d) (q_constraints (messagesQuery c)) = (d_city d = Some c)"
  by (auto simp: messagesQuery_def getField_def)

lemma in_order_messagesQuery:
  "list_all (\<lambda>k. in_order k ds) (q_constraints (messagesQuery c)) =
   sorted_wrt (\<lambda>a b. value_le (map_option VTimestamp (d_timestamp a)) (map_option VTimestamp (d_timestamp b))) ds"
  by (simp add: messagesQuery_def getField_def)

text \<open>
  C3. With a user and a city selected, the screen subscribes to the query for that
  city, and when the backend answers that query over a collection, the message list
  holds exactly the messages of the collection whose city field equals the selected
  city, every one with that city, in ascending timestamp order: of two messages that
  have a timestamp, the earlier one in the list has the earlier timestamp.
\<close>

theorem message_list_city_ascending:
  assumes "user st = Some u" and "c \<noteq> []"
    and "answers (messagesQuery c) coll snapshot"
  shows "\<exists>st1. messagesEffect (Some c) st = (st1, Some (messagesQuery c))
       \<and> (let ms = messages (fst (onSnapshot snapshot st1)) in
            mset ms = mset (map toMessage (filter (\<lambda>d. d_city d = Some c) coll))
          \<and> (\<forall>m \<in> set ms. city m = c)
          \<and> sorted_wrt (\<lambda>a b. \<forall>x y. timestamp a = Some (DateOf x) \<and> timestamp b = Some (DateOf y)
                            \<longrightarrow> ts_nanos x \<le> ts_nanos y) ms)"
proof -
  have sub: "messagesEffect (Some c) st = (st\<lparr>isLoading := True\<rparr>, Some (messagesQuery c))"
    using assms(1,2) by (simp add: messagesEffect_def)
  have ms: "messages (fst (onSnapshot snapshot s)) = map toMessage snapshot" for s
    by (simp add: onSnapshot_def Let_def)
  from assms(3) have "mset snapshot =
      mset (filter (\<lambda>d. list_all (\<lambda>k. admits k d) (q_constraints (messagesQuery c))) coll)"
    unfolding answers_def by (rule conjunct1)
  then have snap: "mset snapshot = mset (filter (\<lambda>d. d_city d = Some c) coll)"
    unfolding admits_messagesQuery .
  then have a: "mset (map toMessage snapshot) = mset (map toMessage (filter (\<lambda>d. d_city d = Some c) coll))"
    by (simp only: mset_map)
  from snap have "set snapshot = set (filter (\<lambda>d. d_city d = Some c) coll)"
    by (rule mset_eq_setD)
  then have "\<forall>d \<in> set snapshot. d_city d = Some c" by simp
  then have b: "\<forall>m \<in> set (map toMessage snapshot). city m = c"
    using assms(2) by (simp add: toMessage_def or_default_def)
  from assms(3) have "list_all (\<lambda>k. in_order k snapshot) (q_constraints (messagesQuery c))"
    unfolding answers_def by (rule conjunct2)
  then have "sorted_wrt (\<lambda>a b. value_le (map_option VTimestamp (d_timestamp a))
      (map_option VTimestamp (d_timestamp b))) snapshot"
    unfolding in_order_messagesQuery .
  then have "sorted_wrt (\<lambda>a b. \<forall>x y. timestamp (toMessage a) = Some (DateOf x)
        \<and> timestamp (toMessage b) = Some (DateOf y) \<longrightarrow> ts_nanos x \<le> ts_nanos y) snapshot"
  proof (rule sorted_wrt_mono_rel [rotated])
    fix a b :: message_doc
    assume le: "value_le (map_option VTimestamp (d_timestamp a)) (map_option VTimestamp (d_timestamp b))"
    show "\<forall>x y. timestamp (toMessage a) = Some (DateOf x)
        \<and> timestamp (toMessage b) = Some (DateOf y) \<longrightarrow> ts_nanos x \<le> ts_nanos y"
    proof (intro allI impI)
      fix x y
      assume "timestamp (toMessage a) = Some (DateOf x) \<and> timestamp (toMessage b) = Some (DateOf y)"
      then have "d_timestamp a = Some x" and "d_timestamp b = Some y"
        by (auto simp: toMessage_def)
      with le show "ts_nanos x \<le> ts_nanos y"
        by (rule value_le_timestamps)
    qed
  qed
  then have c: "sorted_wrt (\<lambda>a b. \<forall>x y. timestamp a = Some (DateOf x) \<and> timestamp b = Some (DateOf y)
                            \<longrightarrow> ts_nanos x \<le> ts_nanos y) (map toMessage snapshot)"
    by (simp add: sorted_wrt_map)
  show ?thesis
    unfolding sub Let_def ms using a b c by simp
qed

theorem message_list_city_ascending_witness:
  "user example_state = Some example_user \<and> ''Pune'' \<noteq> []
   \<and> answers (messagesQuery ''Pune'') example_collection (example_snapshot @ [example_pending])
   \<and> map msg_id (messages (fst (onSnapshot (example_snapshot @ [example_pending])
        (fst (messagesEffect (Some ''Pune'') example_state))))) = [''m1'', ''m2'', ''m3'', ''m4'']
   \<and> mset (messages (fst (onSnapshot (example_snapshot @ [example_pending])
        (fst (messagesEffect (Some ''Pune'') example_state))))) =
       mset (map toMessage (filter (\<lambda>d. d_city d = Some ''Pune'') example_collection))"
proof -
  have h1: "user example_state = Some example_user"
    by (simp add: example_state_def)
  have h2: "''Pune'' \<noteq> []" by simp
  have h3: "answers (messagesQuery ''Pune'') example_collection (example_snapshot @ [example_pending])"
    by (simp add: answers_def messagesQuery_def getField_def example_collection_def
        example_snapshot_def example_pending_def example_doc_def ts_nanos_def)
  from message_list_city_ascending [OF h1 h2 h3]
  obtain st1 where st1: "messagesEffect (Some ''Pune'') example_state = (st1, Some (messagesQuery ''Pune''))"
    and m: "mset (messages (fst (onSnapshot (example_snapshot @ [example_pending]) st1))) =
       mset (map toMessage (filter (\<lambda>d. d_city d = Some ''Pune'') example_collection))"
    unfolding Let_def by blast
  have ids: "map msg_id (messages (fst (onSnapshot (example_snapshot @ [example_pending]) st1))) =
      [''m1'', ''m2'', ''m3'', ''m4'']"
    by (simp add: onSnapshot_def Let_def example_snapshot_def example_pending_def example_doc_def
        toMessage_def)
  from st1 have "fst (messagesEffect (Some ''Pune'') example_state) = st1" by simp
  then show ?thesis using h1 h2 h3 m ids by simp
qed

section \<open>Properties of the dashboard\<close>

lemma isToday_same_day: "isToday now date = same_calendar_day date now"
  by (cases now; cases date) (auto simp: isToday_def same_calendar_day_def)

text \<open>
  C5. Today's Active Alerts are exactly the SOS requests, in their order, whose
  \<open>createdAt\<close> date has the same calendar year, month and day as the current date; a
  request with no \<open>createdAt\<close> is not among them.
\<close>

theorem todaysAlerts_same_day:
  "todaysAlerts now sosRequests =
     filter (\<lambda>alert. \<exists>v. createdAt alert = Some v \<and> same_calendar_day (createdDate v) now) sosRequests
   \<and> (\<forall>alert \<in> set sosRequests.
         alert \<in> set (todaysAlerts now sosRequests) \<longleftrightarrow>
           (\<exists>v y m d. createdAt alert = Some v \<and> createdDate v = LocalDate y m d \<and> now = LocalDate y m d))
   \<and> (\<forall>alert \<in> set sosRequests. createdAt alert = None \<longrightarrow> alert \<notin> set (todaysAlerts now sosRequests))
   \<and> set (todaysAlerts now sosRequests) \<subseteq> set sosRequests"
proof -
  have p: "(case createdAt alert of None \<Rightarrow> False | Some v \<Rightarrow> isToday now (createdDate v)) =
      (\<exists>v. createdAt alert = Some v \<and> same_calendar_day (createdDate v) now)" for alert :: sos_request
    by (cases "createdAt alert") (simp_all add: isToday_same_day)
  have a: "todaysAlerts now sosRequests =
     filter (\<lambda>alert. \<exists>v. createdAt alert = Some v \<and> same_calendar_day (createdDate v) now) sosRequests"
    by (simp add: todaysAlerts_def p)
  show ?thesis
    unfolding a by (auto simp: same_calendar_day_def)
qed

theorem todaysAlerts_same_day_witness:
  "map sos_id (todaysAlerts (LocalDate 2025 6 14) example_requests) = [''s1'', ''s4'']
   \<and> example_request ''s2'' None \<notin> set (todaysAlerts (LocalDate 2025 6 14) example_requests)"
proof -
  note t = todaysAlerts_same_day [of "LocalDate 2025 6 14" example_requests]
  from t have "todaysAlerts (LocalDate 2025 6 14) example_requests =
     filter (\<lambda>alert. \<exists>v. createdAt alert = Some v \<and> same_calendar_day (createdDate v) (LocalDate 2025 6 14))
       example_requests"
    by blast
  then have a: "map sos_id (todaysAlerts (LocalDate 2025 6 14) example_requests) = [''s1'', ''s4'']"
    by (simp add: example_requests_def example_request_def same_calendar_day_def)
  have "example_request ''s2'' None \<in> set example_requests"
    by (simp add: example_requests_def)
  moreover have "createdAt (example_request ''s2'' None) = None"
    by (simp add: example_request_def)
  ultimately have "example_request ''s2'' None \<notin> set (todaysAlerts (LocalDate 2025 6 14) example_requests)"
    using t by blast
  with a show ?thesis by blast
qed

section \<open>Properties of the profile screen\<close>

lemma block_cases:
  "blockedUsers (fst (blockUser_onSubmit ok email st)) =
     (if email \<noteq> [] \<and> regex_test emailRegex email \<and> email \<notin> set (blockedUsers st)
         \<and> (ok \<or> profile_user st = None)
      then blockedUsers st @ [email] else blockedUsers st)"
  by (simp add: blockUser_onSubmit_def Let_def split: option.split)

lemma unblock_cases:
  "blockedUsers (fst (unblockUser_onSubmit ok email st)) =
     (if email \<noteq> [] \<and> email \<in> set (blockedUsers st) \<and> (ok \<or> profile_user st = None)
      then filter (\<lambda>u. u \<noteq> email) (blockedUsers st) else blockedUsers st)"
  by (simp add: unblockUser_onSubmit_def Let_def split: option.split)

lemma manageBlocked_distinct:
  "distinct (blockedUsers st) \<Longrightarrow> distinct (blockedUsers (manageBlocked op st))"
  by (cases op) (simp_all add: block_cases unblock_cases)

lemma manageBlockedAll_distinct:
  "distinct (blockedUsers st) \<Longrightarrow> distinct (blockedUsers (manageBlockedAll ops st))"
  unfolding manageBlockedAll_def
  by (induction ops arbitrary: st) (simp_all add: manageBlocked_distinct)

lemma block_writes:
  assumes "UpdateDoc c w (BlockedUsers l) \<in> set (snd (blockUser_onSubmit ok email st))"
  shows "l = blockedUsers st @ [email] \<and> email \<notin> set (blockedUsers st)"
proof (cases "email \<noteq> [] \<and> regex_test emailRegex email \<and> email \<notin> set (blockedUsers st)")
  case True
  with assms show ?thesis
    by (cases "profile_user st"; cases ok) (simp_all add: blockUser_onSubmit_def Let_def)
next
  case False
  with assms show ?thesis
    by (auto simp: blockUser_onSubmit_def Let_def split: if_splits)
qed

lemma unblock_writes:
  assumes "UpdateDoc c w (BlockedUsers l) \<in> set (snd (unblockUser_onSubmit ok email st))"
  shows "l = filter (\<lambda>u. u \<noteq> email) (blockedUsers st)"
proof (cases "email \<noteq> [] \<and> email \<in> set (blockedUsers st)")
  case True
  with assms show ?thesis
    by (cases "profile_user st"; cases ok) (simp_all add: unblockUser_onSubmit_def Let_def)
next
  case False
  with assms show ?thesis
    by (auto simp: unblockUser_onSubmit_def Let_def split: if_splits)
qed

lemma written_distinct:
  assumes "distinct (blockedUsers st)"
    and "UpdateDoc c w (BlockedUsers l) \<in> set (snd (blockUser_onSubmit ok email st))
         \<or> UpdateDoc c w (BlockedUsers l) \<in> set (snd (unblockUser_onSubmit ok email st))"
  shows "distinct l"
  using assms(2)
proof
  assume "UpdateDoc c w (BlockedUsers l) \<in> set (snd (blockUser_onSubmit ok email st))"
  then have "l = blockedUsers st @ [email] \<and> email \<notin> set (blockedUsers st)"
    by (rule block_writes)
  with assms(1) show ?thesis by simp
next
  assume "UpdateDoc c w (BlockedUsers l) \<in> set (snd (unblockUser_onSubmit ok email st))"
  then have "l = filter (\<lambda>u. u \<noteq> email) (blockedUsers st)"
    by (rule unblock_writes)
  with assms(1) show ?thesis by simp
qed

text \<open>
  C8. The blocked-users list never holds an e-mail twice. Blocking an e-mail that is in
  the list leaves the list as it is (a valid one is refused with Already Blocked);
  blocking one that is not either leaves the list as it is or appends it, once.
  Unblocking either leaves the list as it is or removes every occurrence of the
  e-mail. Each operation keeps a duplicate-free list duplicate-free, whatever the
  outcome of its write, and writes only a duplicate-free list to the profile document;
  so does every session of operations, in particular from the screen's initial, empty
  list.
\<close>

theorem blocked_users_distinct:
  "(email \<in> set (blockedUsers st) \<longrightarrow>
      blockedUsers (fst (blockUser_onSubmit ok email st)) = blockedUsers st
      \<and> (email \<noteq> [] \<and> regex_test emailRegex email \<longrightarrow>
           snd (blockUser_onSubmit ok email st) = [Alert ''Already Blocked'' ''This user is already blocked.'']))
   \<and> (email \<notin> set (blockedUsers st) \<longrightarrow>
        blockedUsers (fst (blockUser_onSubmit ok email st)) = blockedUsers st
        \<or> (blockedUsers (fst (blockUser_onSubmit ok email st)) = blockedUsers st @ [email]
            \<and> count_list (blockedUsers (fst (blockUser_onSubmit ok email st))) email = 1))
   \<and> (email \<noteq> [] \<and> regex_test emailRegex email \<and> email \<notin> set (blockedUsers st)
        \<and> (ok \<or> profile_user st = None) \<longrightarrow>
        blockedUsers (fst (blockUser_onSubmit ok email st)) = blockedUsers st @ [email])
   \<and> (blockedUsers (fst (unblockUser_onSubmit ok email st)) = blockedUsers st
       \<or> (blockedUsers (fst (unblockUser_onSubmit ok email st)) = filter (\<lambda>u. u \<noteq> email) (blockedUsers st)
           \<and> email \<notin> set (blockedUsers (fst (unblockUser_onSubmit ok email st)))))
   \<and> (email \<noteq> [] \<and> (ok \<or> profile_user st = None) \<longrightarrow>
        email \<notin> set (blockedUsers (fst (unblockUser_onSubmit ok email st))))
   \<and> (distinct (blockedUsers st) \<longrightarrow>
        distinct (blockedUsers (fst (blockUser_onSubmit ok email st)))
        \<and> distinct (blockedUsers (fst (unblockUser_onSubmit ok email st)))
        \<and> (\<forall>w l. UpdateDoc ''users'' w (BlockedUsers l) \<in> set (snd (blockUser_onSubmit ok email st))
                  \<or> UpdateDoc ''users'' w (BlockedUsers l) \<in> set (snd (unblockUser_onSubmit ok email st))
                \<longrightarrow> distinct l)
        \<and> distinct (blockedUsers (manageBlockedAll ops st)))
   \<and> distinct (blockedUsers (manageBlockedAll ops (initial_profile_state u)))"
proof -
  have init: "distinct (blockedUsers (initial_profile_state u))"
    by (simp add: initial_profile_state_def)
  have refused: "snd (blockUser_onSubmit ok email st) = [Alert ''Already Blocked'' ''This user is already blocked.'']"
    if "email \<in> set (blockedUsers st)" "email \<noteq> []" "regex_test emailRegex email"
    using that by (simp add: blockUser_onSubmit_def Let_def)
  have once: "count_list (blockedUsers st @ [email]) email = 1" if "email \<notin> set (blockedUsers st)"
    using that by (simp add: count_list_0_iff)
  have written: "\<forall>w l. UpdateDoc ''users'' w (BlockedUsers l) \<in> set (snd (blockUser_onSubmit ok email st))
                  \<or> UpdateDoc ''users'' w (BlockedUsers l) \<in> set (snd (unblockUser_onSubmit ok email st))
                \<longrightarrow> distinct l"
    if "distinct (blockedUsers st)"
    using written_distinct [OF that] by blast
  have ops: "distinct (blockedUsers st) \<longrightarrow>
        distinct (blockedUsers (fst (blockUser_onSubmit ok email st)))
        \<and> distinct (blockedUsers (fst (unblockUser_onSubmit ok email st)))
        \<and> (\<forall>w l. UpdateDoc ''users'' w (BlockedUsers l) \<in> set (snd (blockUser_onSubmit ok email st))
                  \<or> UpdateDoc ''users'' w (BlockedUsers l) \<in> set (snd (unblockUser_onSubmit ok email st))
                \<longrightarrow> distinct l)
        \<and> distinct (blockedUsers (manageBlockedAll ops st))"
  proof
    assume d: "distinct (blockedUsers st)"
    have "distinct (blockedUsers (fst (blockUser_onSubmit ok email st)))"
      using d by (simp add: block_cases)
    moreover have "distinct (blockedUsers (fst (unblockUser_onSubmit ok email st)))"
      using d by (simp add: unblock_cases)
    moreover note written [OF d] manageBlockedAll_distinct [OF d, of ops]
    ultimately show "distinct (blockedUsers (fst (blockUser_onSubmit ok email st)))
        \<and> distinct (blockedUsers (fst (unblockUser_onSubmit ok email st)))
        \<and> (\<forall>w l. UpdateDoc ''users'' w (BlockedUsers l) \<in> set (snd (blockUser_onSubmit ok email st))
                  \<or> UpdateDoc ''users'' w (BlockedUsers l) \<in> set (snd (unblockUser_onSubmit ok email st))
                \<longrightarrow> distinct l)
        \<and> distinct (blockedUsers (manageBlockedAll ops st))"
      by (intro conjI)
  qed
  have blk: "(email \<in> set (blockedUsers st) \<longrightarrow>
      blockedUsers (fst (blockUser_onSubmit ok email st)) = blockedUsers st
      \<and> (email \<noteq> [] \<and> regex_test emailRegex email \<longrightarrow>
           snd (blockUser_onSubmit ok email st) = [Alert ''Already Blocked'' ''This user is already blocked.'']))
   \<and> (email \<notin> set (blockedUsers st) \<longrightarrow>
        blockedUsers (fst (blockUser_onSubmit ok email st)) = blockedUsers st
        \<or> (blockedUsers (fst (blockUser_onSubmit ok email st)) = blockedUsers st @ [email]
            \<and> count_list (blockedUsers (fst (blockUser_onSubmit ok email st))) email = 1))
   \<and> (email \<noteq> [] \<and> regex_test emailRegex email \<and> email \<notin> set (blockedUsers st)
        \<and> (ok \<or> profile_user st = None) \<longrightarrow>
        blockedUsers (fst (blockUser_onSubmit ok email st)) = blockedUsers st @ [email])"
    using refused once by (simp add: block_cases)
  have unblk: "(blockedUsers (fst (unblockUser_onSubmit ok email st)) = blockedUsers st
       \<or> (blockedUsers (fst (unblockUser_onSubmit ok email st)) = filter (\<lambda>u. u \<noteq> email) (blockedUsers st)
           \<and> email \<notin> set (blockedUsers (fst (unblockUser_onSubmit ok email st)))))
   \<and> (email \<noteq> [] \<and> (ok \<or> profile_user st = None) \<longrightarrow>
        email \<notin> set (blockedUsers (fst (unblockUser_onSubmit ok email st))))"
    by (simp add: unblock_cases)
  from blk unblk ops manageBlockedAll_distinct [OF init, of ops] show ?thesis
    by (intro conjI) blast+
qed

theorem blocked_users_distinct_witness:
  "''a@b.co'' \<in> set (blockedUsers example_profile)
   \<and> blockedUsers (fst (blockUser_onSubmit True ''a@b.co'' example_profile)) = [''a@b.co'']
   \<and> ''c@d.io'' \<notin> set (blockedUsers example_profile)
   \<and> blockedUsers (fst (blockUser_onSubmit True ''c@d.io'' example_profile)) = [''a@b.co'', ''c@d.io'']
   \<and> blockedUsers (fst (unblockUser_onSubmit True ''a@b.co'' example_profile)) = []
   \<and> distinct (blockedUsers example_profile)
   \<and> distinct (blockedUsers (manageBlockedAll
        [BlockUser True ''c@d.io'', BlockUser True ''c@d.io'', UnblockUser False ''a@b.co''] example_profile))"
proof -
  have m: "''a@b.co'' \<in> set (blockedUsers example_profile)"
    and n: "''c@d.io'' \<notin> set (blockedUsers example_profile)"
    and d: "distinct (blockedUsers example_profile)"
    and u: "profile_user example_profile = Some ''u1''"
    and bl: "blockedUsers example_profile = [''a@b.co'']"
    by (simp_all add: example_profile_def)
  have v: "regex_test emailRegex ''c@d.io''" by code_simp
  note t1 = blocked_users_distinct [of "''a@b.co''" example_profile True]
  note t2 = blocked_users_distinct [of "''c@d.io''" example_profile True
      "[BlockUser True ''c@d.io'', BlockUser True ''c@d.io'', UnblockUser False ''a@b.co'']"]
  from t1 m have a: "blockedUsers (fst (blockUser_onSubmit True ''a@b.co'' example_profile)) = [''a@b.co'']"
    by (simp add: bl)
  from t2 n v have b: "blockedUsers (fst (blockUser_onSubmit True ''c@d.io'' example_profile)) = [''a@b.co'', ''c@d.io'']"
    by (simp add: bl)
  from t1 m have "''a@b.co'' \<notin> set (blockedUsers (fst (unblockUser_onSubmit True ''a@b.co'' example_profile)))"
    by simp
  moreover from t1 have "blockedUsers (fst (unblockUser_onSubmit True ''a@b.co'' example_profile)) = blockedUsers example_profile
       \<or> blockedUsers (fst (unblockUser_onSubmit True ''a@b.co'' example_profile)) = filter (\<lambda>u. u \<noteq> ''a@b.co'') (blockedUsers example_profile)"
    by blast
  ultimately have c: "blockedUsers (fst (unblockUser_onSubmit True ''a@b.co'' example_profile)) = []"
    by (auto simp: bl)
  from t2 d have e: "distinct (blockedUsers (manageBlockedAll
        [BlockUser True ''c@d.io'', BlockUser True ''c@d.io'', UnblockUser False ''a@b.co''] example_profile))"
    by blast
  from m a n b c d e show ?thesis by blast
qed

text \<open>
  C1. When the backend write of an optimistic update fails, an Error alert is raised
  and the local state is back at its value from before the update: the blocked-users
  list after blocking and after unblocking, and the whole state after a toggle of the
  notifications switch. The switch is rendered with \<open>value={notifications}\<close> and
  reports the value it changes to, so a toggle asks for the negation of the flag.
\<close>

theorem failed_write_rolls_back:
  assumes "\<not> ok"
  shows "(list_ex is_write (snd (blockUser_onSubmit ok email st)) \<longrightarrow>
            blockedUsers (fst (blockUser_onSubmit ok email st)) = blockedUsers st
            \<and> notifications (fst (blockUser_onSubmit ok email st)) = notifications st
            \<and> Alert ''Error'' ''Failed to block user.'' \<in> set (snd (blockUser_onSubmit ok email st)))
       \<and> (list_ex is_write (snd (unblockUser_onSubmit ok email st)) \<longrightarrow>
            blockedUsers (fst (unblockUser_onSubmit ok email st)) = blockedUsers st
            \<and> notifications (fst (unblockUser_onSubmit ok email st)) = notifications st
            \<and> Alert ''Error'' ''Failed to unblock user.'' \<in> set (snd (unblockUser_onSubmit ok email st)))
       \<and> (list_ex is_write (snd (handleToggleNotifications ok val st)) \<longrightarrow>
            (val = (\<not> notifications st) \<longrightarrow> fst (handleToggleNotifications ok val st) = st)
            \<and> blockedUsers (fst (handleToggleNotifications ok val st)) = blockedUsers st
            \<and> Alert ''Error'' ''Failed to update notification settings.''
                 \<in> set (snd (handleToggleNotifications ok val st)))"
proof -
  have b: "blockedUsers (fst (blockUser_onSubmit ok email st)) = blockedUsers st
      \<and> notifications (fst (blockUser_onSubmit ok email st)) = notifications st
      \<and> Alert ''Error'' ''Failed to block user.'' \<in> set (snd (blockUser_onSubmit ok email st))"
    if "list_ex is_write (snd (blockUser_onSubmit ok email st))"
    using that assms by (auto simp: blockUser_onSubmit_def Let_def split: if_splits option.splits)
  have u: "blockedUsers (fst (unblockUser_onSubmit ok email st)) = blockedUsers st
      \<and> notifications (fst (unblockUser_onSubmit ok email st)) = notifications st
      \<and> Alert ''Error'' ''Failed to unblock user.'' \<in> set (snd (unblockUser_onSubmit ok email st))"
    if "list_ex is_write (snd (unblockUser_onSubmit ok email st))"
    using that assms by (auto simp: unblockUser_onSubmit_def Let_def split: if_splits option.splits)
  have n: "blockedUsers (fst (handleToggleNotifications ok val st)) = blockedUsers st
      \<and> Alert ''Error'' ''Failed to update notification settings.''
           \<in> set (snd (handleToggleNotifications ok val st))"
    if "list_ex is_write (snd (handleToggleNotifications ok val st))"
    using that assms by (auto simp: handleToggleNotifications_def Let_def split: option.splits)
  have r: "fst (handleToggleNotifications ok val st) = st"
    if "list_ex is_write (snd (handleToggleNotifications ok val st))" and "val = (\<not> notifications st)"
    using that assms by (auto simp: handleToggleNotifications_def Let_def split: option.splits)
  show ?thesis
    using b u n r by blast
qed

theorem failed_write_rolls_back_witness:
  "list_ex is_write (snd (blockUser_onSubmit False ''c@d.io'' example_profile))
   \<and> blockedUsers (fst (blockUser_onSubmit False ''c@d.io'' example_profile)) = [''a@b.co'']
   \<and> list_ex is_write (snd (unblockUser_onSubmit False ''a@b.co'' example_profile))
   \<and> blockedUsers (fst (unblockUser_onSubmit False ''a@b.co'' example_profile)) = [''a@b.co'']
   \<and> list_ex is_write (snd (handleToggleNotifications False False example_profile))
   \<and> notifications example_profile
   \<and> fst (handleToggleNotifications False False example_profile) = example_profile"
proof -
  have v: "regex_test emailRegex ''c@d.io''" by code_simp
  have w1: "list_ex is_write (snd (blockUser_onSubmit False ''c@d.io'' example_profile))"
    using v by (simp add: blockUser_onSubmit_def Let_def example_profile_def)
  have w2: "list_ex is_write (snd (unblockUser_onSubmit False ''a@b.co'' example_profile))"
    by (simp add: unblockUser_onSubmit_def Let_def example_profile_def)
  have w3: "list_ex is_write (snd (handleToggleNotifications False False example_profile))"
    by (simp add: handleToggleNotifications_def Let_def example_profile_def)
  have bl: "blockedUsers example_profile = [''a@b.co'']" and nt: "notifications example_profile"
    by (simp_all add: example_profile_def)
  note t = failed_write_rolls_back [of False "''c@d.io''" example_profile False]
  note t' = failed_write_rolls_back [of False "''a@b.co''" example_profile False]
  from t w1 have a: "blockedUsers (fst (blockUser_onSubmit False ''c@d.io'' example_profile)) = [''a@b.co'']"
    by (simp add: bl)
  from t' w2 have b: "blockedUsers (fst (unblockUser_onSubmit False ''a@b.co'' example_profile)) = [''a@b.co'']"
    by (simp add: bl)
  from t w3 nt have c: "fst (handleToggleNotifications False False example_profile) = example_profile"
    by simp
  from w1 a w2 b w3 nt c show ?thesis by blast
qed

end
